theory Spec2Isabelle
  imports Complex_Main "HOL-Library.AList"
begin

section \<open>JavaScript values, strings and objects\<close>

text \<open>
  A cell of a parsed table is one of the scalar values the parsers hand over. A JavaScript
  number is modelled by a real: the model covers the finite numbers, and every concrete
  number evaluated below is dyadic with a short mantissa, so that the double arithmetic of the
  source is exact there. Strings are lists of 8-bit code units.
\<close>

datatype jsval = JUndefined | JNull | JBool bool | JNum real | JStr string

text \<open>\<^verbatim>\<open>typeof v === 'number'\<close>, \<^verbatim>\<open>typeof v === 'string'\<close>, \<^verbatim>\<open>v == null\<close>.\<close>

fun isNumber :: "jsval \<Rightarrow> bool" where
  "isNumber (JNum n) = True"
| "isNumber v = False"

fun isString :: "jsval \<Rightarrow> bool" where
  "isString (JStr s) = True"
| "isString v = False"

fun isNullish :: "jsval \<Rightarrow> bool" where
  "isNullish JUndefined = True"
| "isNullish JNull = True"
| "isNullish v = False"

text \<open>Truthiness of a value, as tested by \<^verbatim>\<open>if (v)\<close> and \<^verbatim>\<open>a && b\<close>.\<close>

fun truthy :: "jsval \<Rightarrow> bool" where
  "truthy JUndefined = False"
| "truthy JNull = False"
| "truthy (JBool b) = b"
| "truthy (JNum n) = (n \<noteq> 0)"
| "truthy (JStr s) = (s \<noteq> [])"

text \<open>
  A \<^verbatim>\<open>Record<string, unknown>\<close> is an association list in insertion order. Reading a
  missing key gives \<^verbatim>\<open>undefined\<close>; an assignment replaces the value of a present key in
  place and appends a new key at the end.
\<close>

type_synonym row = "(string \<times> jsval) list"

definition getProp :: "row \<Rightarrow> string \<Rightarrow> jsval" where
  "getProp obj k = (case map_of obj k of None \<Rightarrow> JUndefined | Some v \<Rightarrow> v)"

definition setProp :: "row \<Rightarrow> string \<Rightarrow> jsval \<Rightarrow> row" where
  "setProp obj k v = AList.update k v obj"

subsection \<open>Numbers to text\<close>

definition digitChar :: "nat \<Rightarrow> char" where
  "digitChar n = ''0123456789'' ! (n mod 10)"

text \<open>\<^verbatim>\<open>n.toString()\<close> of a non-negative integer below \<open>10\<^sup>2\<^sup>1\<close>: its decimal digits.\<close>

fun natToString :: "nat \<Rightarrow> string" where
  "natToString n =
     (if n < 10 then [digitChar n] else natToString (n div 10) @ [digitChar (n mod 10)])"

declare natToString.simps [simp del]

definition intToString :: "int \<Rightarrow> string" where
  "intToString i = (if i < 0 then ''-'' @ natToString (nat (- i)) else natToString (nat i))"

text \<open>\<^verbatim>\<open>s.padStart(2, '0')\<close>.\<close>

definition padStart2 :: "string \<Rightarrow> string" where
  "padStart2 s = replicate (2 - length s) (CHR ''0'') @ s"

text \<open>\<^verbatim>\<open>Math.round\<close> rounds to the nearest integer, a half towards \<open>+\<infinity>\<close>.\<close>

definition mathRound :: "real \<Rightarrow> int" where
  "mathRound x = \<lfloor>x + 1 / 2\<rfloor>"

subsection \<open>Substring search and case folding\<close>

fun startsWith :: "string \<Rightarrow> string \<Rightarrow> bool" where
  "startsWith s [] = True"
| "startsWith [] (p # ps) = False"
| "startsWith (c # cs) (p # ps) = (c = p \<and> startsWith cs ps)"

text \<open>\<^verbatim>\<open>s.includes(sub)\<close>.\<close>

fun strIncludes :: "string \<Rightarrow> string \<Rightarrow> bool" where
  "strIncludes [] sub = (sub = [])"
| "strIncludes (c # cs) sub = (startsWith (c # cs) sub \<or> strIncludes cs sub)"

text \<open>\<^verbatim>\<open>s.toLowerCase()\<close> on the ASCII letters.\<close>

definition lowerChar :: "char \<Rightarrow> char" where
  "lowerChar c =
     (case map_of (zip ''ABCDEFGHIJKLMNOPQRSTUVWXYZ'' ''abcdefghijklmnopqrstuvwxyz'') c of
        None \<Rightarrow> c
      | Some l \<Rightarrow> l)"

definition toLowerCase :: "string \<Rightarrow> string" where
  "toLowerCase s = map lowerChar s"

section \<open>csvParser: decimalToTime\<close>

definition decimalToTime :: "real \<Rightarrow> string" where
  "decimalToTime decimal =
     (let isNegative = decimal < 0;
          absDecimal = \<bar>decimal\<bar>;
          hours = \<lfloor>absDecimal\<rfloor>;
          minutes = mathRound ((absDecimal - of_int hours) * 60);
          sign = (if isNegative then ''-'' else '''')
      in sign @ padStart2 (intToString hours) @ '':'' @ padStart2 (intToString minutes))"

section \<open>csvParser: ensureUniqueHeaders\<close>

text \<open>
  The loop over \<^verbatim>\<open>headers\<close>, with the \<^verbatim>\<open>headerCounts\<close> map as its state; the
  pushed names are the result list.
\<close>

fun uniqueLoop :: "(string \<rightharpoonup> nat) \<Rightarrow> string list \<Rightarrow> string list" where
  "uniqueLoop headerCounts [] = []"
| "uniqueLoop headerCounts (header # rest) =
     (case headerCounts header of
        Some c \<Rightarrow>
          (let count = c + 1
           in (header @ '' ('' @ natToString count @ '')'')
                # uniqueLoop (headerCounts(header \<mapsto> count)) rest)
      | None \<Rightarrow> header # uniqueLoop (headerCounts(header \<mapsto> 1)) rest)"

definition ensureUniqueHeaders :: "string list \<Rightarrow> string list" where
  "ensureUniqueHeaders headers = uniqueLoop Map.empty headers"

section \<open>csvParser: parseCSVFile\<close>

text \<open>
  The callback \<^verbatim>\<open>complete\<close> receives the header names (\<^verbatim>\<open>results.meta.fields\<close>) and
  the data rows, which the delimited-text reader has already keyed by header name. Each row
  is remapped: for every original header, in order, the value found in the row under the
  original name is stored under the unique name of the same index (skipped when that name is
  empty).
\<close>

fun remapLoop :: "string list \<Rightarrow> row \<Rightarrow> (string \<times> nat) list \<Rightarrow> row \<Rightarrow> row" where
  "remapLoop uniqueHeaders r [] newRow = newRow"
| "remapLoop uniqueHeaders r ((originalHeader, index) # rest) newRow =
     (if index < length uniqueHeaders \<and> uniqueHeaders ! index \<noteq> []
      then remapLoop uniqueHeaders r rest
             (setProp newRow (uniqueHeaders ! index) (getProp r originalHeader))
      else remapLoop uniqueHeaders r rest newRow)"

definition remapRow :: "string list \<Rightarrow> string list \<Rightarrow> row \<Rightarrow> row" where
  "remapRow originalHeaders uniqueHeaders r =
     remapLoop uniqueHeaders r (zip originalHeaders [0 ..< length originalHeaders]) []"

definition remapData :: "string list \<Rightarrow> row list \<Rightarrow> row list" where
  "remapData originalHeaders rawData =
     map (remapRow originalHeaders (ensureUniqueHeaders originalHeaders)) rawData"

text \<open>
  Modelled from the spec: the delimited-text reader is a library outside the repository. It
  hands over the field names and, for each raw row, an object keyed by them: the value of
  the j-th raw column is assigned to the key of the j-th field name, in column order.
\<close>

definition keyedRow :: "string list \<Rightarrow> jsval list \<Rightarrow> row" where
  "keyedRow fieldNames rawRow =
     foldl (\<lambda>obj (field, v). setProp obj field v) [] (zip fieldNames rawRow)"

section \<open>csvParser: detectDecimalHourColumns\<close>

text \<open>
  \<^verbatim>\<open>reduce\<close> starts from \<^verbatim>\<open>-Infinity\<close> and \<^verbatim>\<open>Infinity\<close>, so the running maximum and
  minimum are numbers extended by the two infinities.
\<close>

datatype extnum = NegInf | Fin real | PosInf

fun ext_le :: "extnum \<Rightarrow> extnum \<Rightarrow> bool" where
  "ext_le NegInf y = True"
| "ext_le (Fin a) NegInf = False"
| "ext_le (Fin a) (Fin b) = (a \<le> b)"
| "ext_le (Fin a) PosInf = True"
| "ext_le PosInf PosInf = True"
| "ext_le PosInf y = False"

definition mathMax :: "extnum \<Rightarrow> extnum \<Rightarrow> extnum" where
  "mathMax a b = (if ext_le a b then b else a)"

definition mathMin :: "extnum \<Rightarrow> extnum \<Rightarrow> extnum" where
  "mathMin a b = (if ext_le a b then a else b)"

definition timeKeywords :: "string list" where
  "timeKeywords =
     [''hour'', ''hrs'', ''time'', ''duration'', ''worked'', ''logged'', ''actual'',
      ''planned'', ''scheduled'', ''billable'', ''non-billable'', ''productive'',
      ''non-productive'', ''hours'']"

fun numberOf :: "jsval \<Rightarrow> real" where
  "numberOf (JNum n) = n"
| "numberOf v = 0"

text \<open>
  One pass of the loop body for a header: \<open>True\<close> when the header is pushed onto
  \<^verbatim>\<open>suggestions\<close>, \<open>False\<close> on either \<^verbatim>\<open>continue\<close> and when neither branch pushes.
\<close>

definition columnSuggested :: "string \<Rightarrow> row list \<Rightarrow> bool" where
  "columnSuggested header data =
     (let headerLower = toLowerCase header;
          hasTimeKeyword = list_ex (\<lambda>keyword. strIncludes headerLower keyword) timeKeywords;
          columnValues = filter (\<lambda>val. \<not> isNullish val) (map (\<lambda>r. getProp r header) data)
      in if length columnValues = 0 then False
         else
           (let numericValues = filter isNumber columnValues;
                numericRatio =
                  (of_nat (length numericValues) :: real) / of_nat (length columnValues)
            in if numericRatio < 8 / 10 then False
               else
                 (let values = map numberOf numericValues;
                      max = foldl (\<lambda>a b. mathMax a (Fin b)) NegInf values;
                      min = foldl (\<lambda>a b. mathMin a (Fin b)) PosInf values;
                      isReasonableRange = (ext_le (Fin (- 1000)) min \<and> ext_le max (Fin 1000))
                  in if hasTimeKeyword \<and> isReasonableRange then True
                     else if \<not> hasTimeKeyword \<and> isReasonableRange \<and> numericRatio = 1
                     then True
                     else False)))"

definition detectDecimalHourColumns :: "string list \<Rightarrow> row list \<Rightarrow> string list" where
  "detectDecimalHourColumns headers data = filter (\<lambda>header. columnSuggested header data) headers"

section \<open>csvParser: convertCSVColumns and convertToCSV\<close>

text \<open>
  The inner loop over \<^verbatim>\<open>columnsToConvert\<close> works on the copy \<^verbatim>\<open>newRow\<close> and on the
  list \<^verbatim>\<open>newHeaders\<close>, which is shared by all rows.
\<close>

fun convertRow :: "bool \<Rightarrow> string list \<Rightarrow> row \<Rightarrow> string list \<Rightarrow> row \<times> string list" where
  "convertRow keepOriginal [] newRow newHeaders = (newRow, newHeaders)"
| "convertRow keepOriginal (column # rest) newRow newHeaders =
     (case getProp newRow column of
        JNum n \<Rightarrow>
          (let convertedValue = decimalToTime n
           in if keepOriginal
              then
                (let newColumnName = column @ ''_hhmm'';
                     newRow' = setProp newRow newColumnName (JStr convertedValue)
                 in if newColumnName \<in> set newHeaders
                    then convertRow keepOriginal rest newRow' newHeaders
                    else convertRow keepOriginal rest newRow' (newHeaders @ [newColumnName]))
              else convertRow keepOriginal rest (setProp newRow column (JStr convertedValue))
                     newHeaders)
      | _ \<Rightarrow> convertRow keepOriginal rest newRow newHeaders)"

fun convertRows :: "bool \<Rightarrow> string list \<Rightarrow> row list \<Rightarrow> string list \<Rightarrow> row list \<times> string list"
  where
  "convertRows keepOriginal columnsToConvert [] newHeaders = ([], newHeaders)"
| "convertRows keepOriginal columnsToConvert (r # rest) newHeaders =
     (let (newRow, newHeaders') = convertRow keepOriginal columnsToConvert r newHeaders;
          (convertedRest, newHeaders'') =
            convertRows keepOriginal columnsToConvert rest newHeaders'
      in (newRow # convertedRest, newHeaders''))"

record conversion =
  cdata :: "row list"
  newHeaders :: "string list"

definition convertCSVColumns :: "row list \<Rightarrow> string list \<Rightarrow> bool \<Rightarrow> conversion" where
  "convertCSVColumns data columnsToConvert keepOriginal =
     (let (convertedData, hs) = convertRows keepOriginal columnsToConvert data []
      in \<lparr>cdata = convertedData, newHeaders = hs\<rparr>)"

text \<open>The field list that \<^verbatim>\<open>convertToCSV\<close> and \<^verbatim>\<open>convertToXLSX\<close> hand to the writer.\<close>

definition allHeaders :: "string list \<Rightarrow> string list \<Rightarrow> string list" where
  "allHeaders headers additionalHeaders =
     (if length additionalHeaders > 0 then headers @ additionalHeaders else headers)"

section \<open>xlsxParser: header-row detection\<close>

type_synonym grid = "jsval list list"

definition markers :: "string list" where
  "markers = [''Time Period'', ''Executed on'', ''Query'']"

text \<open>
  The set \<^verbatim>\<open>foundMarkers\<close> is a list without repetitions, so that its length is the
  size of the set. The three nested loops run over the rows, the cells of a row and the
  markers.
\<close>

definition addMarkers :: "string \<Rightarrow> string list \<Rightarrow> string list" where
  "addMarkers cell foundMarkers =
     foldl (\<lambda>found marker. if strIncludes cell marker then List.insert marker found else found)
       foundMarkers markers"

definition scanRow :: "jsval list \<Rightarrow> string list \<Rightarrow> string list" where
  "scanRow r foundMarkers =
     foldl (\<lambda>found cell. case cell of JStr s \<Rightarrow> addMarkers s found | _ \<Rightarrow> found) foundMarkers r"

definition hasReportHeader :: "grid \<Rightarrow> bool" where
  "hasReportHeader rows =
     (let searchRows = take 6 rows;
          foundMarkers = foldl (\<lambda>found r. scanRow r found) [] searchRows
      in length foundMarkers \<ge> 2)"

text \<open>\<^verbatim>\<open>cell != null && cell !== ''\<close>.\<close>

definition isNonEmptyCell :: "jsval \<Rightarrow> bool" where
  "isNonEmptyCell cell = (\<not> isNullish cell \<and> cell \<noteq> JStr '''')"

text \<open>The test of \<^verbatim>\<open>findColumnHeaderRow\<close> on one row.\<close>

definition headerLike :: "jsval list \<Rightarrow> bool" where
  "headerLike r =
     (let nonEmptyCells = length (filter isNonEmptyCell r);
          stringCells = length (filter isString r)
      in nonEmptyCells \<ge> 5 \<and> (of_nat stringCells :: real) / of_nat nonEmptyCells \<ge> 6 / 10)"

function findColumnHeaderRowFrom :: "grid \<Rightarrow> nat \<Rightarrow> nat" where
  "findColumnHeaderRowFrom rows i =
     (if i < min (length rows) 15
      then (if headerLike (rows ! i) then i else findColumnHeaderRowFrom rows (Suc i))
      else 6)"
  by pat_completeness auto
termination
  by (relation "measure (\<lambda>(rows, i). 15 - i)") auto

declare findColumnHeaderRowFrom.simps [simp del]

definition findColumnHeaderRow :: "grid \<Rightarrow> nat" where
  "findColumnHeaderRow rows = findColumnHeaderRowFrom rows 3"

definition detectHeaderRow :: "grid \<Rightarrow> nat" where
  "detectHeaderRow rows =
     (if length rows = 0 then 0
      else if hasReportHeader rows then findColumnHeaderRow rows
      else 0)"

section \<open>xlsxParser: worksheets, merged columns and the missing-data check\<close>

text \<open>
  A merge range with its start and end cell (\<^verbatim>\<open>s.r\<close>, \<^verbatim>\<open>s.c\<close>, \<^verbatim>\<open>e.r\<close>,
  \<^verbatim>\<open>e.c\<close>). A worksheet object maps each key to an entry: \<open>cells\<close> lists the keys in
  insertion order with the value \<^verbatim>\<open>v\<close> of the entry (\<^verbatim>\<open>undefined\<close> for an entry
  without one, as the special keys starting with \<^verbatim>\<open>!\<close> are); \<open>merges\<close> is
  \<^verbatim>\<open>worksheet['!merges'] || []\<close>.
\<close>

datatype merge = Merge (s_r: nat) (s_c: nat) (e_r: nat) (e_c: nat)

record worksheet =
  cells :: "(string \<times> jsval) list"
  merges :: "merge list"

definition getMergedColumns :: "worksheet \<Rightarrow> nat \<Rightarrow> nat set" where
  "getMergedColumns ws headerRowIndex =
     foldl (\<lambda>mergedCols m.
              if s_r m \<le> headerRowIndex \<and> e_r m \<ge> headerRowIndex
              then mergedCols \<union> {s_c m + 1 .. e_c m}
              else mergedCols)
       {} (merges ws)"

definition isDigit :: "char \<Rightarrow> bool" where
  "isDigit ch = (ch \<in> set ''0123456789'')"

text \<open>\<^verbatim>\<open>key.replace(/[0-9]/g, '')\<close>.\<close>

definition columnOf :: "string \<Rightarrow> string" where
  "columnOf key = filter (\<lambda>ch. \<not> isDigit ch) key"

definition cellKeys :: "worksheet \<Rightarrow> string list" where
  "cellKeys ws = filter (\<lambda>k. \<not> startsWith k ''!'') (map fst (cells ws))"

text \<open>One pass of the counting loop: \<^verbatim>\<open>columnCounts[col] = (columnCounts[col] || 0) + 1\<close>.\<close>

definition countStep :: "(string \<times> nat) list \<Rightarrow> string \<Rightarrow> (string \<times> nat) list" where
  "countStep columnCounts key =
     (let col = columnOf key
      in AList.update col
           ((case map_of columnCounts col of None \<Rightarrow> 0 | Some n \<Rightarrow> n) + 1) columnCounts)"

definition countColumns :: "string list \<Rightarrow> (string \<times> nat) list" where
  "countColumns keys = foldl countStep [] keys"

text \<open>
  \<^verbatim>\<open>String(v)\<close>; the text of a number comes from the run-time and is a parameter.
\<close>

fun jsString :: "(real \<Rightarrow> string) \<Rightarrow> jsval \<Rightarrow> string" where
  "jsString numberToString JUndefined = ''undefined''"
| "jsString numberToString JNull = ''null''"
| "jsString numberToString (JBool b) = (if b then ''true'' else ''false'')"
| "jsString numberToString (JNum n) = numberToString n"
| "jsString numberToString (JStr s) = s"

text \<open>The name pushed for a column that holds a single cell.\<close>

definition missingName :: "(real \<Rightarrow> string) \<Rightarrow> worksheet \<Rightarrow> nat \<Rightarrow> string \<Rightarrow> string" where
  "missingName numberToString ws headerRowIndex col =
     (case map_of (cells ws) (col @ natToString (headerRowIndex + 1)) of
        Some v \<Rightarrow> if truthy v then jsString numberToString v else ''Column '' @ col
      | None \<Rightarrow> ''Column '' @ col)"

fun missingLoop ::
  "(real \<Rightarrow> string) \<Rightarrow> worksheet \<Rightarrow> nat \<Rightarrow> (string \<times> nat) list \<Rightarrow> string list" where
  "missingLoop numberToString ws headerRowIndex [] = []"
| "missingLoop numberToString ws headerRowIndex ((col, n) # rest) =
     (if n = 1
      then missingName numberToString ws headerRowIndex col
             # missingLoop numberToString ws headerRowIndex rest
      else missingLoop numberToString ws headerRowIndex rest)"

definition findMissingDataColumns :: "(real \<Rightarrow> string) \<Rightarrow> worksheet \<Rightarrow> nat \<Rightarrow> string list"
  where
  "findMissingDataColumns numberToString ws headerRowIndex =
     (let columnCounts = countColumns (cellKeys ws);
          maxCount = foldl mathMax NegInf (map (\<lambda>(col, n). Fin (of_nat n)) columnCounts)
      in if \<not> ext_le maxCount (Fin 1)
         then missingLoop numberToString ws headerRowIndex columnCounts
         else [])"

section \<open>xlsxParser: parseXLSXSheet and parseXLSXFile\<close>

record workbook =
  SheetNames :: "string list"
  Sheets :: "(string \<times> worksheet) list"

datatype error = Error string

record sheetData =
  sd_headers :: "string list"
  sd_data :: "row list"
  sd_headerRowIndex :: nat

definition isWhitespace :: "char \<Rightarrow> bool" where
  "isWhitespace ch =
     (ch \<in> set [CHR 0x09, CHR 0x0A, CHR 0x0B, CHR 0x0C, CHR 0x0D, CHR '' '', CHR 0xA0])"

definition trim :: "string \<Rightarrow> string" where
  "trim s = rev (dropWhile isWhitespace (rev (dropWhile isWhitespace s)))"

text \<open>The pairs \<open>(element, index)\<close> that \<^verbatim>\<open>forEach\<close> visits.\<close>

definition indexed :: "'a list \<Rightarrow> ('a \<times> nat) list" where
  "indexed xs = zip xs [0 ..< length xs]"

text \<open>
  Header extraction returns the pushed pairs: the first components are \<^verbatim>\<open>rawHeaders\<close>,
  the second ones \<^verbatim>\<open>validColumnIndices\<close>.
\<close>

fun extractHeaders :: "(real \<Rightarrow> string) \<Rightarrow> nat set \<Rightarrow> (jsval \<times> nat) list \<Rightarrow> (string \<times> nat) list"
  where
  "extractHeaders numberToString mergedColumns [] = []"
| "extractHeaders numberToString mergedColumns ((cell, index) # rest) =
     (if index \<in> mergedColumns then extractHeaders numberToString mergedColumns rest
      else if isNullish cell \<or> cell = JStr ''''
      then extractHeaders numberToString mergedColumns rest
      else (trim (jsString numberToString cell), index)
             # extractHeaders numberToString mergedColumns rest)"

text \<open>
  The header row is \<^verbatim>\<open>rawData[headerRowIndex]\<close>; the walk over it runs only when it is an
  array, that is, when the index is inside the grid.
\<close>

definition headerColumns :: "(real \<Rightarrow> string) \<Rightarrow> nat set \<Rightarrow> grid \<Rightarrow> nat \<Rightarrow> (string \<times> nat) list"
  where
  "headerColumns numberToString mergedColumns rawData headerRowIndex =
     (if headerRowIndex < length rawData
      then extractHeaders numberToString mergedColumns (indexed (rawData ! headerRowIndex))
      else [])"

fun buildHeaderMap :: "string list \<Rightarrow> (nat \<times> nat) list \<Rightarrow> (nat \<rightharpoonup> string) \<Rightarrow> (nat \<rightharpoonup> string)"
  where
  "buildHeaderMap hs [] headerMap = headerMap"
| "buildHeaderMap hs ((originalIndex, headerIndex) # rest) headerMap =
     (if headerIndex < length hs \<and> hs ! headerIndex \<noteq> []
      then buildHeaderMap hs rest (headerMap(originalIndex \<mapsto> hs ! headerIndex))
      else buildHeaderMap hs rest headerMap)"

definition coerceCell :: "(string \<Rightarrow> real option) \<Rightarrow> jsval \<Rightarrow> jsval" where
  "coerceCell toNumber cell =
     (case cell of
        JStr s \<Rightarrow>
          (case toNumber s of
             Some n \<Rightarrow> if trim s \<noteq> [] then JNum n else cell
           | None \<Rightarrow> cell)
      | _ \<Rightarrow> cell)"

fun buildRow ::
  "(string \<Rightarrow> real option) \<Rightarrow> (nat \<rightharpoonup> string) \<Rightarrow> (jsval \<times> nat) list \<Rightarrow> row \<Rightarrow> row" where
  "buildRow toNumber headerMap [] rowData = rowData"
| "buildRow toNumber headerMap ((cell, index) # rest) rowData =
     (case headerMap index of
        Some headerName \<Rightarrow>
          (if headerName \<noteq> []
           then buildRow toNumber headerMap rest
                  (setProp rowData headerName (coerceCell toNumber cell))
           else buildRow toNumber headerMap rest rowData)
      | None \<Rightarrow> buildRow toNumber headerMap rest rowData)"

definition parseDataRows :: "(string \<Rightarrow> real option) \<Rightarrow> (nat \<rightharpoonup> string) \<Rightarrow> grid \<Rightarrow> row list"
  where
  "parseDataRows toNumber headerMap dataRows =
     map (\<lambda>r. buildRow toNumber headerMap (indexed r) [])
       (filter (\<lambda>r. list_ex isNonEmptyCell r) dataRows)"

fun joinWith :: "string \<Rightarrow> string list \<Rightarrow> string" where
  "joinWith sep [] = []"
| "joinWith sep [x] = x"
| "joinWith sep (x # y # zs) = x @ sep @ joinWith sep (y # zs)"

definition missingDataMessage :: "string list \<Rightarrow> string" where
  "missingDataMessage missingColumns =
     ''The following columns have no data: '' @ joinWith '', '' missingColumns @ ''. ''
     @ ''This usually happens when Excel formulas are not cached. ''
     @ ''Please open the file in Excel, press Ctrl+S to save (which caches formula results), then re-upload.''"

text \<open>
  What the source takes from the run-time and from the spreadsheet library is a parameter:
  the text of a number, the number read from a string (\<open>None\<close> for \<^verbatim>\<open>NaN\<close>) and the
  cell grid that \<^verbatim>\<open>XLSX.utils.sheet_to_json\<close> builds from a worksheet.
\<close>

record jslib =
  numberToString :: "real \<Rightarrow> string"
  stringToNumber :: "string \<Rightarrow> real option"
  sheet_to_json :: "worksheet \<Rightarrow> grid"

definition parseXLSXSheet :: "jslib \<Rightarrow> workbook \<Rightarrow> error + sheetData" where
  "parseXLSXSheet lib wb =
     (case SheetNames wb of
        [] \<Rightarrow> Inl (Error ''No sheets found in workbook'')
      | firstSheetName # others \<Rightarrow>
          if firstSheetName = [] then Inl (Error ''No sheets found in workbook'')
          else
            (case map_of (Sheets wb) firstSheetName of
               None \<Rightarrow>
                 Inl (Error (''Sheet '' @ [CHR 0x22] @ firstSheetName @ [CHR 0x22]
                              @ '' not found in workbook''))
             | Some ws \<Rightarrow>
                 (let rawData = sheet_to_json lib ws;
                      headerRowIndex = detectHeaderRow rawData;
                      mergedColumns = getMergedColumns ws headerRowIndex;
                      extracted =
                        headerColumns (numberToString lib) mergedColumns rawData headerRowIndex;
                      rawHeaders = map fst extracted;
                      validColumnIndices = map snd extracted;
                      hs = ensureUniqueHeaders rawHeaders;
                      missingColumns =
                        findMissingDataColumns (numberToString lib) ws headerRowIndex
                  in if length missingColumns > 0
                     then Inl (Error (missingDataMessage missingColumns))
                     else
                       (let headerMap = buildHeaderMap hs (indexed validColumnIndices) Map.empty;
                            dataRows = drop (headerRowIndex + 1) rawData;
                            d = parseDataRows (stringToNumber lib) headerMap dataRows
                        in Inr \<lparr>sd_headers = hs, sd_data = d,
                                 sd_headerRowIndex = headerRowIndex\<rparr>))))"

record parsedCSV =
  pc_fileName :: string
  pc_headers :: "string list"
  pc_data :: "row list"
  pc_suggestedColumns :: "string list"

text \<open>
  \<^verbatim>\<open>parseXLSXFile\<close> from the workbook on: an error of \<^verbatim>\<open>parseXLSXSheet\<close> rejects the
  promise with the wrapped message.
\<close>

definition parseXLSXFile :: "jslib \<Rightarrow> string \<Rightarrow> workbook \<Rightarrow> error + parsedCSV" where
  "parseXLSXFile lib name wb =
     (case parseXLSXSheet lib wb of
        Inl (Error message) \<Rightarrow> Inl (Error (''Failed to parse XLSX: '' @ message))
      | Inr sd \<Rightarrow>
          Inr \<lparr>pc_fileName = name, pc_headers = sd_headers sd, pc_data = sd_data sd,
               pc_suggestedColumns = detectDecimalHourColumns (sd_headers sd) (sd_data sd)\<rparr>)"

section \<open>Definitions used to state the properties\<close>

text \<open>
  The derived names that one row produces in additive mode, in the order of the selected
  columns, and the recording of names that are not yet recorded.
\<close>

definition producedNames :: "string list \<Rightarrow> row \<Rightarrow> string list" where
  "producedNames columnsToConvert r =
     map (\<lambda>column. column @ ''_hhmm'')
       (filter (\<lambda>column. isNumber (getProp r column)) columnsToConvert)"

definition recordOnce :: "string list \<Rightarrow> string list \<Rightarrow> string list" where
  "recordOnce recorded names =
     foldl (\<lambda>acc name. if name \<in> set acc then acc else acc @ [name]) recorded names"

text \<open>A marker occurs in a string cell of the first six rows; the number of such markers.\<close>

definition cellHas :: "string \<Rightarrow> jsval \<Rightarrow> bool" where
  "cellHas marker cell = (case cell of JStr s \<Rightarrow> strIncludes s marker | _ \<Rightarrow> False)"

definition markerOccurs :: "string \<Rightarrow> grid \<Rightarrow> bool" where
  "markerOccurs marker rows = list_ex (\<lambda>r. list_ex (cellHas marker) r) (take 6 rows)"

definition markersFound :: "grid \<Rightarrow> nat" where
  "markersFound rows = length (filter (\<lambda>marker. markerOccurs marker rows) markers)"

text \<open>
  The row test in the words of the specification: at least five non-empty cells, of which
  at least 60 percent are strings.
\<close>

definition headerLikeAsWorded :: "jsval list \<Rightarrow> bool" where
  "headerLikeAsWorded r =
     (let nonEmpty = filter isNonEmptyCell r
      in length nonEmpty \<ge> 5
         \<and> (of_nat (length (filter isString nonEmpty)) :: real) / of_nat (length nonEmpty)
             \<ge> 6 / 10)"

text \<open>The number of populated cells of a column of the sheet.\<close>

definition populatedCells :: "worksheet \<Rightarrow> string \<Rightarrow> nat" where
  "populatedCells ws col = length (filter (\<lambda>key. columnOf key = col) (cellKeys ws))"

text \<open>
  Example grids: a report preamble followed by a row of numbers and empty strings, a report
  preamble with the column headers in row 6, and a preamble alone.
\<close>

definition emptyStringsGrid :: grid where
  "emptyStringsGrid =
     [[JStr ''Time Period: January''], [JStr ''Executed on: Monday''], [JNull],
      [JNum 1, JNum 2, JNum 3, JNum 4, JNum 5, JStr '''', JStr '''', JStr ''''],
      [JStr ''Employee'', JStr ''Date'', JStr ''Hours'', JStr ''Task'', JStr ''Notes'']]"

definition preambleGrid :: grid where
  "preambleGrid =
     [[JStr ''Time Period: January''], [JStr ''Executed on: Monday''], [JNull],
      [], [JNull, JNull], [JStr ''Report''],
      [JStr ''Employee'', JStr ''Date'', JStr ''Hours'', JStr ''Task'', JStr ''Notes''],
      [JStr ''Ann'', JStr ''2024-01-15'', JNum (15 / 2), JStr ''Dev'', JNull]]"

definition preambleOnlyGrid :: grid where
  "preambleOnlyGrid = [[JStr ''Time Period: January'', JStr ''Query: all''], [JNull]]"

text \<open>The count that \<^verbatim>\<open>columnCounts\<close> holds for a column.\<close>

definition countOf :: "(string \<times> nat) list \<Rightarrow> string \<Rightarrow> nat" where
  "countOf columnCounts col = (case map_of columnCounts col of None \<Rightarrow> 0 | Some n \<Rightarrow> n)"

text \<open>
  Example workbooks. The library of the examples gives the text of a whole number, reads no
  string as a number, and returns the stated grid for the sheet. In the first sheet the
  header of column C is the number 0 and the column has no data; in the second the header of
  column C is a name; in the third a merge spans columns 2 to 4 of the header row.
\<close>

definition exampleLib :: "grid \<Rightarrow> jslib" where
  "exampleLib g =
     \<lparr>numberToString = (\<lambda>n. intToString \<lfloor>n\<rfloor>),
      stringToNumber = (\<lambda>s. None),
      sheet_to_json = (\<lambda>ws. g)\<rparr>"

definition exampleBook :: "worksheet \<Rightarrow> workbook" where
  "exampleBook ws = \<lparr>SheetNames = [''Sheet1''], Sheets = [(''Sheet1'', ws)]\<rparr>"

definition zeroHeaderSheet :: worksheet where
  "zeroHeaderSheet =
     \<lparr>cells = [(''!ref'', JUndefined),
               (''A1'', JStr ''Name''), (''B1'', JStr ''Hours''), (''C1'', JNum 0),
               (''A2'', JStr ''Ann''), (''B2'', JNum (15 / 2)),
               (''A3'', JStr ''Bob''), (''B3'', JNum (13 / 4))],
      merges = []\<rparr>"

definition zeroHeaderGrid :: grid where
  "zeroHeaderGrid =
     [[JStr ''Name'', JStr ''Hours'', JNum 0],
      [JStr ''Ann'', JNum (15 / 2), JNull],
      [JStr ''Bob'', JNum (13 / 4), JNull]]"

definition formulaSheet :: worksheet where
  "formulaSheet =
     \<lparr>cells = [(''!ref'', JUndefined),
               (''A1'', JStr ''Name''), (''B1'', JStr ''Hours''), (''C1'', JStr ''Overtime''),
               (''A2'', JStr ''Ann''), (''B2'', JNum (15 / 2)),
               (''A3'', JStr ''Bob''), (''B3'', JNum (13 / 4))],
      merges = []\<rparr>"

definition formulaGrid :: grid where
  "formulaGrid =
     [[JStr ''Name'', JStr ''Hours'', JStr ''Overtime''],
      [JStr ''Ann'', JNum (15 / 2), JNull],
      [JStr ''Bob'', JNum (13 / 4), JNull]]"

definition mergedSheet :: worksheet where
  "mergedSheet =
     \<lparr>cells = [(''!ref'', JUndefined),
               (''A1'', JStr ''Name''), (''B1'', JStr ''Date''), (''C1'', JStr ''Hours''),
               (''F1'', JStr ''Task''),
               (''A2'', JStr ''Ann''), (''B2'', JStr ''Mon''), (''C2'', JNum (15 / 2)),
               (''D2'', JNum 1), (''E2'', JNum 2), (''F2'', JStr ''Dev''),
               (''A3'', JStr ''Bob''), (''B3'', JStr ''Tue''), (''C3'', JNum (13 / 4)),
               (''D3'', JNum 3), (''E3'', JNum 4), (''F3'', JStr ''Review'')],
      merges = [Merge 0 2 0 4]\<rparr>"

definition mergedGrid :: grid where
  "mergedGrid =
     [[JStr ''Name'', JStr ''Date'', JStr ''Hours'', JNull, JNull, JStr ''Task''],
      [JStr ''Ann'', JStr ''Mon'', JNum (15 / 2), JNum 1, JNum 2, JStr ''Dev''],
      [JStr ''Bob'', JStr ''Tue'', JNum (13 / 4), JNum 3, JNum 4, JStr ''Review'']]"

section \<open>Evaluation and bookkeeping lemmas\<close>

lemma natToString_small: "n < 10 \<Longrightarrow> natToString n = [digitChar n]"
  by (subst natToString.simps) simp

lemma natToString_big:
  "10 \<le> n \<Longrightarrow> natToString n = natToString (n div 10) @ [digitChar (n mod 10)]"
  by (subst natToString.simps) simp

lemmas clock_eval = decimalToTime_def mathRound_def padStart2_def intToString_def
  natToString_small natToString_big digitChar_def Let_def

lemma getProp_setProp: "getProp (setProp r k v) k' = (if k' = k then v else getProp r k')"
  by (simp add: getProp_def setProp_def update_conv')

section \<open>decimalToTime\<close>

text \<open>
  Claim C1 asks that the minutes field is never 60, the rounding being carried into the hour.
  The source has no carry: at \<open>511/256 = 1.99609375\<close> the fraction times 60 is
  \<open>59.765625\<close>, which rounds to 60, and the text is \<open>01:60\<close> where the claim asks for
  \<open>02:00\<close>.
\<close>

theorem decimalToTime_emits_sixty_minutes:
  "mathRound ((\<bar>511 / 256\<bar> - of_int \<lfloor>\<bar>511 / 256 :: real\<bar>\<rfloor>) * 60) = 60
   \<and> decimalToTime (511 / 256) = ''01:60''"
  by (simp add: clock_eval)

text \<open>
  Claim C10: the four values of \<^verbatim>\<open>decimalToTime\<close>, and for every \<open>d \<noteq> 0\<close> the texts of
  \<open>d\<close> and \<open>- d\<close> differ by the leading minus sign only.
\<close>

theorem decimalToTime_values_and_sign:
  "decimalToTime (15 / 2) = ''07:30''
   \<and> decimalToTime (13 / 4) = ''03:15''
   \<and> decimalToTime (- (15 / 2)) = ''-07:30''
   \<and> decimalToTime 0 = ''00:00''
   \<and> (0 < d \<longrightarrow> decimalToTime (- d) = ''-'' @ decimalToTime d)
   \<and> (d < 0 \<longrightarrow> decimalToTime d = ''-'' @ decimalToTime (- d))"
proof -
  have pos: "decimalToTime (- x) = ''-'' @ decimalToTime x" if "0 < x" for x
    using that by (simp add: decimalToTime_def Let_def)
  have neg: "decimalToTime x = ''-'' @ decimalToTime (- x)" if "x < 0" for x
    using pos [of "- x"] that by simp
  have c1: "decimalToTime (15 / 2) = ''07:30''" by (simp add: clock_eval)
  have c2: "decimalToTime (13 / 4) = ''03:15''" by (simp add: clock_eval)
  have c3: "decimalToTime (- (15 / 2)) = ''-07:30''" by (simp add: clock_eval)
  have c4: "decimalToTime 0 = ''00:00''" by (simp add: clock_eval)
  from pos neg c1 c2 c3 c4 show ?thesis by blast
qed

text \<open>The sign property of C10 at \<open>3.25\<close> and at \<open>-0.5\<close>.\<close>

theorem decimalToTime_values_and_sign_witness:
  "(0 :: real) < 13 / 4 \<and> decimalToTime (- (13 / 4)) = ''-03:15''
   \<and> (- (1 / 2) :: real) < 0 \<and> decimalToTime (- (1 / 2)) = ''-00:30''"
  using decimalToTime_values_and_sign [of "13 / 4"] decimalToTime_values_and_sign [of "- (1 / 2)"]
  by (simp add: clock_eval)

section \<open>ensureUniqueHeaders\<close>

lemma uniqueLoop_length: "length (uniqueLoop m hs) = length hs"
  by (induction hs arbitrary: m) (auto split: option.splits simp: Let_def)

lemma uniqueLoop_nonempty:
  "i < length hs \<Longrightarrow> hs ! i \<noteq> [] \<Longrightarrow> uniqueLoop m hs ! i \<noteq> []"
proof (induction hs arbitrary: m i)
  case Nil
  then show ?case by simp
next
  case (Cons h hs)
  show ?case
  proof (cases i)
    case 0
    with Cons.prems show ?thesis by (auto split: option.splits simp: Let_def)
  next
    case (Suc j)
    with Cons.prems have "j < length hs" "hs ! j \<noteq> []" by auto
    then have "uniqueLoop m' hs ! j \<noteq> []" for m' by (rule Cons.IH)
    with Suc show ?thesis by (auto split: option.splits simp: Let_def)
  qed
qed

text \<open>
  Claim C9 says that every output entry is non-empty for every input. An empty name in the
  input is emitted unchanged at its first occurrence.
\<close>

theorem ensureUniqueHeaders_empty_name:
  "ensureUniqueHeaders [''''] = [''''] \<and> '''' \<in> set (ensureUniqueHeaders [''''])"
  by (simp add: ensureUniqueHeaders_def)

text \<open>
  Claim C9, amended: the two values, the length of the output, and every output entry whose
  input entry is non-empty is non-empty.
\<close>

theorem ensureUniqueHeaders_shape:
  "ensureUniqueHeaders [''Hours'', ''Hours'', ''Name''] = [''Hours'', ''Hours (2)'', ''Name'']
   \<and> ensureUniqueHeaders [] = []
   \<and> length (ensureUniqueHeaders hs) = length hs
   \<and> (\<forall>i < length hs. hs ! i \<noteq> [] \<longrightarrow> ensureUniqueHeaders hs ! i \<noteq> [])"
proof -
  have "ensureUniqueHeaders [''Hours'', ''Hours'', ''Name''] = [''Hours'', ''Hours (2)'', ''Name'']"
    by (simp add: ensureUniqueHeaders_def natToString_small digitChar_def)
  moreover have "ensureUniqueHeaders [] = []"
    by (simp add: ensureUniqueHeaders_def)
  ultimately show ?thesis
    by (simp add: ensureUniqueHeaders_def uniqueLoop_length uniqueLoop_nonempty)
qed

text \<open>The amended C9 at a list with a repeated name and an empty name.\<close>

theorem ensureUniqueHeaders_shape_witness:
  "length (ensureUniqueHeaders [''A'', '''', ''A'']) = 3
   \<and> (2 :: nat) < length [''A'', '''', ''A''] \<and> [''A'', '''', ''A''] ! 2 \<noteq> []
   \<and> ensureUniqueHeaders [''A'', '''', ''A''] ! 2 \<noteq> []
   \<and> ensureUniqueHeaders [''A'', '''', ''A''] ! 2 = ''A (2)''"
  using ensureUniqueHeaders_shape [of "[''A'', '''', ''A'']"]
  by (simp add: ensureUniqueHeaders_def natToString_small digitChar_def)

section \<open>parseCSVFile\<close>

lemma uniqueLoop_fresh:
  "distinct hs \<Longrightarrow> \<forall>h\<in>set hs. m h = None \<Longrightarrow> uniqueLoop m hs = hs"
proof (induction hs arbitrary: m)
  case Nil
  then show ?case by simp
next
  case (Cons a hs)
  have "\<forall>h\<in>set hs. (m(a \<mapsto> 1)) h = None"
    using Cons.prems by auto
  moreover have "distinct hs" using Cons.prems by simp
  ultimately have "uniqueLoop (m(a \<mapsto> 1)) hs = hs"
    by (rule Cons.IH [rotated])
  moreover have "m a = None" using Cons.prems by simp
  ultimately show ?case by simp
qed

lemma ensureUniqueHeaders_distinct: "distinct hs \<Longrightarrow> ensureUniqueHeaders hs = hs"
  by (simp add: ensureUniqueHeaders_def uniqueLoop_fresh)

lemma foldl_setProp_other:
  "k \<notin> fst ` set ps
     \<Longrightarrow> getProp (foldl (\<lambda>obj (field, v). setProp obj field v) acc ps) k = getProp acc k"
  by (induction ps arbitrary: acc) (auto simp: getProp_setProp)

lemma later_fst:
  assumes "i < length zs" "p \<in> set (drop (Suc i) zs)"
  shows "\<exists>j. i < j \<and> j < length zs \<and> p = zs ! j"
proof -
  from assms(2) obtain m where "m < length (drop (Suc i) zs)" "p = drop (Suc i) zs ! m"
    by (auto simp: in_set_conv_nth)
  then have "i < Suc i + m \<and> Suc i + m < length zs \<and> p = zs ! (Suc i + m)"
    by auto
  then show ?thesis by blast
qed

lemma keyedRow_get:
  assumes "i < length fs" "i < length vals"
    and "\<forall>j. i < j \<and> j < length fs \<longrightarrow> fs ! j \<noteq> fs ! i"
  shows "getProp (keyedRow fs vals) (fs ! i) = vals ! i"
proof -
  let ?zs = "zip fs vals"
  let ?f = "\<lambda>obj (field, v). setProp obj field v"
  have i: "i < length ?zs" using assms(1,2) by simp
  have split: "?zs = take i ?zs @ (fs ! i, vals ! i) # drop (Suc i) ?zs"
    using id_take_nth_drop [OF i] i by simp
  have later: "fs ! i \<notin> fst ` set (drop (Suc i) ?zs)"
  proof
    assume "fs ! i \<in> fst ` set (drop (Suc i) ?zs)"
    then obtain p where p: "p \<in> set (drop (Suc i) ?zs)" "fst p = fs ! i" by auto
    from later_fst [OF i p(1)] obtain j where j: "i < j" "j < length ?zs" "p = ?zs ! j"
      by blast
    then have "fst p = fs ! j" "j < length fs" by simp_all
    with p(2) j(1) assms(3) show False by auto
  qed
  have "keyedRow fs vals
      = foldl ?f (setProp (foldl ?f [] (take i ?zs)) (fs ! i) (vals ! i)) (drop (Suc i) ?zs)"
    unfolding keyedRow_def by (subst split) simp
  then show ?thesis
    using later by (simp add: foldl_setProp_other getProp_setProp)
qed

lemma remapLoop_append:
  "remapLoop u r (ps1 @ ps2) acc = remapLoop u r ps2 (remapLoop u r ps1 acc)"
  by (induction u r ps1 acc rule: remapLoop.induct) auto

lemma remapLoop_other:
  "\<forall>p\<in>set ps. snd p < length u \<longrightarrow> u ! snd p \<noteq> k
     \<Longrightarrow> getProp (remapLoop u r ps acc) k = getProp acc k"
  by (induction u r ps acc rule: remapLoop.induct) (auto simp: getProp_setProp)

lemma remapRow_get:
  assumes "i < length fs" "i < length u" "u ! i \<noteq> []"
    and "\<forall>j. i < j \<and> j < length fs \<and> j < length u \<longrightarrow> u ! j \<noteq> u ! i"
  shows "getProp (remapRow fs u r) (u ! i) = getProp r (fs ! i)"
proof -
  let ?zs = "zip fs [0 ..< length fs]"
  have i: "i < length ?zs" using assms(1) by simp
  have split: "?zs = take i ?zs @ [(fs ! i, i)] @ drop (Suc i) ?zs"
    using id_take_nth_drop [OF i] assms(1) by simp
  have later: "\<forall>p\<in>set (drop (Suc i) ?zs). snd p < length u \<longrightarrow> u ! snd p \<noteq> u ! i"
  proof (intro ballI impI)
    fix p assume p: "p \<in> set (drop (Suc i) ?zs)" and lt: "snd p < length u"
    from later_fst [OF i p] obtain j where j: "i < j" "j < length ?zs" "p = ?zs ! j"
      by blast
    then have "snd p = j" "j < length fs" by simp_all
    with lt j(1) assms(4) show "u ! snd p \<noteq> u ! i" by auto
  qed
  have "remapRow fs u r
      = remapLoop u r (drop (Suc i) ?zs)
          (remapLoop u r [(fs ! i, i)] (remapLoop u r (take i ?zs) []))"
    unfolding remapRow_def by (subst split) (simp only: remapLoop_append)
  then show ?thesis
    using later assms(2,3) by (simp add: remapLoop_other getProp_setProp)
qed

text \<open>
  Claim C8 says that the value of the i-th raw column is stored under the i-th unique header
  name, for every row. A column whose unique name is empty is skipped by the guard on the
  name: for the field names \<open>a\<close>, the empty name and \<open>b\<close>, the value 2 of column 1 is in the
  row the reader hands over and in no entry of the output row.
\<close>

theorem remapData_skips_empty_name:
  "ensureUniqueHeaders [''a'', '''', ''b''] = [''a'', '''', ''b'']
   \<and> getProp (keyedRow [''a'', '''', ''b''] [JNum 1, JNum 2, JNum 3]) '''' = JNum 2
   \<and> remapData [''a'', '''', ''b''] [keyedRow [''a'', '''', ''b''] [JNum 1, JNum 2, JNum 3]]
       = [[(''a'', JNum 1), (''b'', JNum 3)]]"
  by (simp add: remapData_def remapRow_def ensureUniqueHeaders_def keyedRow_def setProp_def
      getProp_def)

text \<open>
  The remapping reads the row by field name. When the reader delivers a repeated field name
  as it is, the row holds one value under that name, the one of the later column, and both
  unique names receive it: the own value 1.5 of column 0 is not in the output.
\<close>

lemma remapData_repeated_field_name:
  "remapRow [''Hours'', ''Hours'', ''Name'']
       (ensureUniqueHeaders [''Hours'', ''Hours'', ''Name'']) r
     = [(''Hours'', getProp r ''Hours''), (''Hours (2)'', getProp r ''Hours''),
        (''Name'', getProp r ''Name'')]
   \<and> remapData [''Hours'', ''Hours'', ''Name'']
        [keyedRow [''Hours'', ''Hours'', ''Name''] [JNum (3 / 2), JNum (5 / 2), JStr ''Bob'']]
     = [[(''Hours'', JNum (5 / 2)), (''Hours (2)'', JNum (5 / 2)), (''Name'', JStr ''Bob'')]]"
  by (simp add: remapData_def remapRow_def ensureUniqueHeaders_def natToString_small digitChar_def
      keyedRow_def setProp_def getProp_def)

text \<open>
  A unique name can also be produced twice: for the delivered names \<open>Hours (2)\<close>, \<open>Hours\<close>,
  \<open>Hours\<close> the third unique name is \<open>Hours (2)\<close> again, and the later assignment replaces
  the own value 1 of column 0.
\<close>

lemma remapData_generated_name_collision:
  "ensureUniqueHeaders [''Hours (2)'', ''Hours'', ''Hours'']
     = [''Hours (2)'', ''Hours'', ''Hours (2)'']
   \<and> remapData [''Hours (2)'', ''Hours'', ''Hours'']
        [keyedRow [''Hours (2)'', ''Hours'', ''Hours''] [JNum 1, JNum 2, JNum 3]]
     = [[(''Hours (2)'', JNum 3), (''Hours'', JNum 3)]]"
  by (simp add: remapData_def remapRow_def ensureUniqueHeaders_def natToString_small digitChar_def
      keyedRow_def setProp_def getProp_def)

text \<open>
  Claim C8, amended: for every row and every column i whose unique header name is non-empty,
  the value of the i-th raw column is stored under the i-th unique header name, provided that
  no later column has the same delivered field name or the same unique name. Every column
  meets the proviso when the delivered field names are pairwise distinct, and then the unique
  names are the delivered ones.
\<close>

theorem remapData_positional:
  assumes "k < length raws" "i < length fs" "i < length (raws ! k)"
    and "ensureUniqueHeaders fs ! i \<noteq> []"
    and "\<forall>j. i < j \<and> j < length fs \<longrightarrow>
           fs ! j \<noteq> fs ! i
           \<and> ensureUniqueHeaders fs ! j \<noteq> ensureUniqueHeaders fs ! i"
  shows "getProp (remapData fs (map (keyedRow fs) raws) ! k)
           (ensureUniqueHeaders fs ! i) = raws ! k ! i
    \<and> (distinct fs \<longrightarrow> ensureUniqueHeaders fs = fs)"
proof -
  let ?u = "ensureUniqueHeaders fs"
  have len: "length ?u = length fs"
    by (simp add: ensureUniqueHeaders_def uniqueLoop_length)
  have "remapData fs (map (keyedRow fs) raws) ! k
      = remapRow fs ?u (keyedRow fs (raws ! k))"
    using assms(1) by (simp add: remapData_def)
  moreover have "getProp (remapRow fs ?u (keyedRow fs (raws ! k))) (?u ! i)
      = getProp (keyedRow fs (raws ! k)) (fs ! i)"
    using assms(2,4,5) len by (intro remapRow_get) auto
  moreover have "getProp (keyedRow fs (raws ! k)) (fs ! i) = raws ! k ! i"
    using assms(2,3,5) by (intro keyedRow_get) auto
  ultimately show ?thesis
    by (simp add: ensureUniqueHeaders_distinct)
qed

text \<open>
  The amended C8 at the field names \<open>Hours\<close>, \<open>Hours_1\<close>, \<open>Name\<close>, for column 1 of the
  row 1.5, 2.5, Bob.
\<close>

theorem remapData_positional_witness:
  "(1 :: nat) < length [''Hours'', ''Hours_1'', ''Name'']
   \<and> ensureUniqueHeaders [''Hours'', ''Hours_1'', ''Name''] ! 1 \<noteq> []
   \<and> [''Hours'', ''Hours_1'', ''Name''] ! 2 \<noteq> [''Hours'', ''Hours_1'', ''Name''] ! 1
   \<and> ensureUniqueHeaders [''Hours'', ''Hours_1'', ''Name''] ! 2
       \<noteq> ensureUniqueHeaders [''Hours'', ''Hours_1'', ''Name''] ! 1
   \<and> getProp (remapData [''Hours'', ''Hours_1'', ''Name'']
         (map (keyedRow [''Hours'', ''Hours_1'', ''Name''])
            [[JNum (3 / 2), JNum (5 / 2), JStr ''Bob'']]) ! 0) ''Hours_1'' = JNum (5 / 2)"
proof -
  let ?fs = "[''Hours'', ''Hours_1'', ''Name'']"
  let ?raws = "[[JNum (3 / 2), JNum (5 / 2), JStr ''Bob'']]"
  have u: "ensureUniqueHeaders ?fs = ?fs"
    by (simp add: ensureUniqueHeaders_def)
  have k: "(0 :: nat) < length ?raws" by simp
  have i: "(1 :: nat) < length ?fs" by simp
  have c: "(1 :: nat) < length (?raws ! 0)" by simp
  have ne: "ensureUniqueHeaders ?fs ! 1 \<noteq> []"
    by (simp add: u)
  have l1: "?fs ! 2 \<noteq> ?fs ! 1" by simp
  have l2: "ensureUniqueHeaders ?fs ! 2 \<noteq> ensureUniqueHeaders ?fs ! 1"
    by (simp add: u)
  have later: "\<forall>j. 1 < j \<and> j < length ?fs \<longrightarrow>
      ?fs ! j \<noteq> ?fs ! 1 \<and> ensureUniqueHeaders ?fs ! j \<noteq> ensureUniqueHeaders ?fs ! 1"
  proof (intro allI impI)
    fix j :: nat
    assume "1 < j \<and> j < length ?fs"
    then have "j = 2" by simp
    with l1 l2 show "?fs ! j \<noteq> ?fs ! 1
        \<and> ensureUniqueHeaders ?fs ! j \<noteq> ensureUniqueHeaders ?fs ! 1"
      by blast
  qed
  have "getProp (remapData ?fs (map (keyedRow ?fs) ?raws) ! 0) (ensureUniqueHeaders ?fs ! 1)
      = ?raws ! 0 ! 1"
    using remapData_positional [OF k i c ne later] by blast
  then have v: "getProp (remapData ?fs (map (keyedRow ?fs) ?raws) ! 0) ''Hours_1'' = JNum (5 / 2)"
    by (simp add: u)
  from i ne l1 l2 v show ?thesis by blast
qed

section \<open>detectDecimalHourColumns\<close>

lemma foldl_mathMax_le:
  "ext_le acc (Fin u) \<Longrightarrow> \<forall>v\<in>set vs. v \<le> u
     \<Longrightarrow> ext_le (foldl (\<lambda>a b. mathMax a (Fin b)) acc vs) (Fin u)"
  by (induction vs arbitrary: acc) (auto simp: mathMax_def)

lemma foldl_mathMin_ge:
  "ext_le (Fin l) acc \<Longrightarrow> \<forall>v\<in>set vs. l \<le> v
     \<Longrightarrow> ext_le (Fin l) (foldl (\<lambda>a b. mathMin a (Fin b)) acc vs)"
  by (induction vs arbitrary: acc) (auto simp: mathMin_def)

text \<open>
  Claim C4 says that the column \<open>EmployeeID\<close> with the values 1001, 1002, 1003 is suggested.
  The maximum 1003 exceeds 1000, so the range test fails and nothing is suggested.
\<close>

theorem detect_EmployeeID_over_range:
  "detectDecimalHourColumns [''EmployeeID'']
     [[(''EmployeeID'', JNum 1001)], [(''EmployeeID'', JNum 1002)], [(''EmployeeID'', JNum 1003)]]
   = []"
  by (simp add: detectDecimalHourColumns_def columnSuggested_def getProp_def Let_def
      mathMax_def mathMin_def)

text \<open>
  Claim C4, amended: a column of the schema with at least one non-null value, all of whose
  non-null values are numbers between -1000 and 1000, is suggested, with or without a time
  keyword in its name; so is \<open>EmployeeID\<close> with the values 101, 102, 103.
\<close>

theorem detect_all_numeric_in_range:
  assumes "header \<in> set hs"
    and "\<exists>r\<in>set rows. \<not> isNullish (getProp r header)"
    and "\<forall>r\<in>set rows. isNullish (getProp r header)
           \<or> (\<exists>n. getProp r header = JNum n \<and> - 1000 \<le> n \<and> n \<le> 1000)"
  shows "header \<in> set (detectDecimalHourColumns hs rows)"
proof -
  define columnValues where
    "columnValues = filter (\<lambda>val. \<not> isNullish val) (map (\<lambda>r. getProp r header) rows)"
  have nonempty: "columnValues \<noteq> []"
    using assms(2) by (auto simp: columnValues_def filter_empty_conv)
  have each: "\<exists>n. v = JNum n \<and> - 1000 \<le> n \<and> n \<le> 1000" if "v \<in> set columnValues" for v
    using that assms(3) by (auto simp: columnValues_def)
  then have allnum: "filter isNumber columnValues = columnValues"
    by (fastforce simp: filter_id_conv)
  have range: "\<forall>x\<in>set (map numberOf columnValues). - 1000 \<le> x \<and> x \<le> 1000"
    using each by fastforce
  have hi: "ext_le (foldl (\<lambda>a b. mathMax a (Fin b)) NegInf (map numberOf columnValues)) (Fin 1000)"
    using range by (intro foldl_mathMax_le) auto
  have lo: "ext_le (Fin (- 1000)) (foldl (\<lambda>a b. mathMin a (Fin b)) PosInf (map numberOf columnValues))"
    using range by (intro foldl_mathMin_ge) auto
  have "columnSuggested header rows"
    using nonempty hi lo
    by (simp add: columnSuggested_def Let_def columnValues_def [symmetric] allnum)
  with assms(1) show ?thesis
    by (simp add: detectDecimalHourColumns_def)
qed

text \<open>
  The amended C4 at \<open>EmployeeID\<close> with the values 101, 102, 103; the name holds no time
  keyword.
\<close>

theorem detect_all_numeric_in_range_witness:
  "\<not> list_ex (\<lambda>keyword. strIncludes (toLowerCase ''EmployeeID'') keyword) timeKeywords
   \<and> ''EmployeeID'' \<in> set (detectDecimalHourColumns [''Name'', ''EmployeeID'']
       [[(''Name'', JStr ''Ann''), (''EmployeeID'', JNum 101)],
        [(''Name'', JStr ''Bob''), (''EmployeeID'', JNum 102)],
        [(''Name'', JStr ''Cy''), (''EmployeeID'', JNum 103)]])"
proof -
  have kw: "\<not> list_ex (\<lambda>keyword. strIncludes (toLowerCase ''EmployeeID'') keyword) timeKeywords"
    by (simp add: toLowerCase_def lowerChar_def timeKeywords_def)
  have "''EmployeeID'' \<in> set (detectDecimalHourColumns [''Name'', ''EmployeeID'']
       [[(''Name'', JStr ''Ann''), (''EmployeeID'', JNum 101)],
        [(''Name'', JStr ''Bob''), (''EmployeeID'', JNum 102)],
        [(''Name'', JStr ''Cy''), (''EmployeeID'', JNum 103)]])"
    by (rule detect_all_numeric_in_range) (simp_all add: getProp_def)
  with kw show ?thesis by simp
qed

section \<open>convertCSVColumns, replacing mode\<close>

lemma convertRow_False_headers: "snd (convertRow False cols r nh) = nh"
  by (induction cols arbitrary: r) (auto split: jsval.splits simp: Let_def)

lemma convertRow_False_no_new_numbers:
  "\<not> isNumber (getProp r k) \<Longrightarrow> \<not> isNumber (getProp (fst (convertRow False cols r nh)) k)"
  by (induction cols arbitrary: r) (auto split: jsval.splits simp: Let_def getProp_setProp)

lemma convertRow_False_converted:
  "c \<in> set cols \<Longrightarrow> \<not> isNumber (getProp (fst (convertRow False cols r nh)) c)"
proof (induction cols arbitrary: r)
  case Nil
  then show ?case by simp
next
  case (Cons a cols)
  show ?case
  proof (cases "c = a")
    case True
    show ?thesis
    proof (cases "getProp r a")
      case (JNum n)
      have "\<not> isNumber (getProp (setProp r a (JStr (decimalToTime n))) c)"
        using True by (simp add: getProp_setProp)
      then show ?thesis
        using JNum by (simp add: Let_def convertRow_False_no_new_numbers)
    qed (use True in \<open>simp_all add: convertRow_False_no_new_numbers\<close>)
  next
    case False
    with Cons.prems have "c \<in> set cols" by simp
    then show ?thesis
      by (cases "getProp r a") (simp_all add: Let_def Cons.IH)
  qed
qed

lemma convertRow_False_fixed:
  "\<forall>c\<in>set cols. \<not> isNumber (getProp r c) \<Longrightarrow> convertRow False cols r nh = (r, nh)"
  by (induction cols) (auto split: jsval.splits)

lemma convertRows_False_fst:
  "fst (convertRows False cols rows nh) = map (\<lambda>r. fst (convertRow False cols r nh)) rows"
proof (induction rows)
  case Nil
  then show ?case by simp
next
  case (Cons r rows)
  have "snd (convertRow False cols r nh) = nh" by (rule convertRow_False_headers)
  then show ?case
    using Cons.IH by (simp add: case_prod_unfold Let_def)
qed

lemma convertRow_False_twice:
  "fst (convertRow False cols (fst (convertRow False cols r nh)) nh')
     = fst (convertRow False cols r nh)"
  by (simp add: convertRow_False_fixed convertRow_False_converted)

text \<open>
  Claim C2: converting the output of a replacing conversion again, with the same columns,
  leaves the rows unchanged: the converted cells are strings, and only numbers are converted.
\<close>

theorem convertCSVColumns_replace_idempotent:
  "cdata (convertCSVColumns (cdata (convertCSVColumns rows cols False)) cols False)
     = cdata (convertCSVColumns rows cols False)"
proof -
  have "cdata (convertCSVColumns d cols False) = map (\<lambda>r. fst (convertRow False cols r [])) d"
    for d
    using convertRows_False_fst [of cols d "[]"]
    by (simp add: convertCSVColumns_def case_prod_unfold)
  then show ?thesis
    by (simp add: convertRow_False_twice comp_def)
qed

section \<open>convertCSVColumns, additive mode\<close>

lemma convertRow_fst_indep:
  "fst (convertRow keep cols r nh) = fst (convertRow keep cols r nh')"
  by (induction cols arbitrary: r nh nh') (auto split: jsval.splits simp: Let_def)

lemma convertRows_fst:
  "fst (convertRows keep cols rows nh) = map (\<lambda>r. fst (convertRow keep cols r [])) rows"
proof (induction rows arbitrary: nh)
  case Nil
  then show ?case by simp
next
  case (Cons r rows)
  then show ?case
    using convertRow_fst_indep [of keep cols r nh "[]"]
    by (simp add: case_prod_unfold Let_def)
qed

lemma convertRow_True_other_keys:
  "k \<notin> (\<lambda>c. c @ ''_hhmm'') ` set cols
     \<Longrightarrow> getProp (fst (convertRow True cols r nh)) k = getProp r k"
  by (induction cols arbitrary: r nh) (auto split: jsval.splits simp: Let_def getProp_setProp)

lemma producedNames_Cons:
  "producedNames (c # cols) r =
     (if isNumber (getProp r c) then [c @ ''_hhmm''] else []) @ producedNames cols r"
  by (simp add: producedNames_def)

lemma producedNames_cong:
  "\<forall>c\<in>set cols. getProp r' c = getProp r c \<Longrightarrow> producedNames cols r' = producedNames cols r"
  by (simp add: producedNames_def cong: filter_cong)

lemma recordOnce_Cons:
  "recordOnce acc (x # xs) = recordOnce (if x \<in> set acc then acc else acc @ [x]) xs"
  by (simp add: recordOnce_def)

lemma recordOnce_Nil: "recordOnce acc [] = acc"
  by (simp add: recordOnce_def)

lemma recordOnce_append: "recordOnce acc (xs @ ys) = recordOnce (recordOnce acc xs) ys"
  by (simp add: recordOnce_def)

lemma recordOnce_distinct: "distinct acc \<Longrightarrow> distinct (recordOnce acc xs)"
  by (induction xs arbitrary: acc) (auto simp: recordOnce_Cons recordOnce_Nil)

lemma convertRow_True_headers:
  "\<forall>c\<in>set cols. c @ ''_hhmm'' \<notin> set cols
     \<Longrightarrow> snd (convertRow True cols r nh) = recordOnce nh (producedNames cols r)"
proof (induction cols arbitrary: r nh)
  case Nil
  then show ?case by (simp add: producedNames_def recordOnce_Nil)
next
  case (Cons c cols)
  have hyp: "\<forall>d\<in>set cols. d @ ''_hhmm'' \<notin> set cols"
    using Cons.prems by auto
  have notin: "c @ ''_hhmm'' \<notin> set cols"
    using Cons.prems by auto
  show ?case
  proof (cases "getProp r c")
    case (JNum n)
    define r1 where "r1 = setProp r (c @ ''_hhmm'') (JStr (decimalToTime n))"
    have same: "producedNames cols r1 = producedNames cols r"
      using notin by (intro producedNames_cong) (auto simp: r1_def getProp_setProp)
    have step: "snd (convertRow True cols r1 nh') = recordOnce nh' (producedNames cols r)" for nh'
      using Cons.IH [OF hyp, of r1 nh'] same by simp
    show ?thesis
      using JNum step
      by (simp add: Let_def r1_def [symmetric] producedNames_Cons recordOnce_Cons)
  qed (use Cons.IH [OF hyp] in \<open>simp_all add: producedNames_Cons\<close>)
qed

lemma convertRow_True_derived:
  "c \<in> set cols \<Longrightarrow> c @ ''_hhmm'' \<notin> set cols \<Longrightarrow> \<forall>d\<in>set cols. d @ ''_hhmm'' \<noteq> c
     \<Longrightarrow> getProp r c = JNum n
     \<Longrightarrow> getProp (fst (convertRow True cols r nh)) (c @ ''_hhmm'') = JStr (decimalToTime n)"
proof (induction cols arbitrary: r nh)
  case Nil
  then show ?case by simp
next
  case (Cons a cols)
  have a_not_c: "a @ ''_hhmm'' \<noteq> c" using Cons.prems(3) by simp
  have rest: "\<forall>d\<in>set cols. d @ ''_hhmm'' \<noteq> c" using Cons.prems(3) by simp
  have cnot: "c @ ''_hhmm'' \<notin> set cols" using Cons.prems(2) by simp
  show ?case
  proof (cases "c \<in> set cols")
    case True
    have IH: "getProp r' c = JNum n
      \<Longrightarrow> getProp (fst (convertRow True cols r' nh')) (c @ ''_hhmm'') = JStr (decimalToTime n)"
      for r' nh'
      using Cons.IH [OF True cnot rest] by simp
    show ?thesis
    proof (cases "getProp r a")
      case (JNum m)
      have "getProp (setProp r (a @ ''_hhmm'') (JStr (decimalToTime m))) c = JNum n"
        using a_not_c Cons.prems(4) by (simp add: getProp_setProp)
      then show ?thesis using JNum IH by (simp add: Let_def)
    qed (use IH Cons.prems(4) in simp_all)
  next
    case False
    with Cons.prems(1) have ca: "c = a" by simp
    have notder: "c @ ''_hhmm'' \<notin> (\<lambda>c. c @ ''_hhmm'') ` set cols"
      using False by auto
    show ?thesis
      using ca Cons.prems(4) convertRow_True_other_keys [OF notder]
      by (simp add: Let_def getProp_setProp)
  qed
qed

lemma convertRow_True_untouched:
  "\<forall>c\<in>set cols. c @ ''_hhmm'' \<notin> set cols
     \<Longrightarrow> k \<notin> (\<lambda>c. c @ ''_hhmm'') ` {c \<in> set cols. isNumber (getProp r c)}
     \<Longrightarrow> map_of (fst (convertRow True cols r nh)) k = map_of r k"
proof (induction cols arbitrary: r nh)
  case Nil
  then show ?case by simp
next
  case (Cons a cols)
  have hyp: "\<forall>d\<in>set cols. d @ ''_hhmm'' \<notin> set cols"
    using Cons.prems(1) by auto
  have notin: "a @ ''_hhmm'' \<notin> set cols"
    using Cons.prems(1) by auto
  have rest: "k \<notin> (\<lambda>c. c @ ''_hhmm'') ` {c \<in> set cols. isNumber (getProp r c)}"
    using Cons.prems(2) by auto
  show ?case
  proof (cases "getProp r a")
    case (JNum n)
    define r1 where "r1 = setProp r (a @ ''_hhmm'') (JStr (decimalToTime n))"
    have same: "{c \<in> set cols. isNumber (getProp r1 c)} = {c \<in> set cols. isNumber (getProp r c)}"
      using notin by (auto simp: r1_def getProp_setProp)
    have ka: "k \<noteq> a @ ''_hhmm''"
      using Cons.prems(2) JNum by auto
    have step: "fst (convertRow True (a # cols) r nh) = fst (convertRow True cols r1 [])"
      using JNum convertRow_fst_indep [of True cols r1 _ "[]"]
      by (simp add: Let_def r1_def [symmetric])
    have "map_of (fst (convertRow True cols r1 [])) k = map_of r1 k"
      using Cons.IH [OF hyp, of r1 "[]"] rest same by simp
    also have "map_of r1 k = map_of r k"
      using ka by (simp add: r1_def setProp_def update_conv')
    finally show ?thesis
      unfolding step .
  qed (use Cons.IH [OF hyp rest] in simp_all)
qed

text \<open>
  Claim C7 says that the original value at every selected column is preserved. When a
  selected column is named like the derived column of another selected column, the derived
  value overwrites it: with \<open>A\<close> and \<open>A_hhmm\<close> selected, the value 2.5 at \<open>A_hhmm\<close> is
  replaced by the clock text of \<open>A\<close>, and no key \<open>A_hhmm_hhmm\<close> appears.
\<close>

theorem convertCSVColumns_keep_overwrites_selected:
  "getProp [(''A'', JNum (3 / 2)), (''A_hhmm'', JNum (5 / 2))] ''A_hhmm'' = JNum (5 / 2)
   \<and> cdata (convertCSVColumns [[(''A'', JNum (3 / 2)), (''A_hhmm'', JNum (5 / 2))]]
              [''A'', ''A_hhmm''] True)
       = [[(''A'', JNum (3 / 2)), (''A_hhmm'', JStr ''01:30'')]]"
  by (simp add: convertCSVColumns_def getProp_def setProp_def clock_eval)

text \<open>
  Claim C7, amended: provided that no derived name \<open>C_hhmm\<close> of a selected column is itself
  a selected column, every output row keeps the value of every selected column and holds the
  clock text under \<open>C_hhmm\<close> where the input row holds a number at \<open>C\<close>; a row without a
  number at \<open>C\<close> gets no derived key, its entry under \<open>C_hhmm\<close> being the one of the input
  row (none, when the input row has none); \<^verbatim>\<open>newHeaders\<close> lists each produced name once,
  in the order of first production (rows outermost, selected columns within a row); and the
  serialized header list is the existing headers followed by \<^verbatim>\<open>newHeaders\<close>.
\<close>

theorem convertCSVColumns_keep_original:
  assumes "\<forall>c\<in>set cols. c @ ''_hhmm'' \<notin> set cols"
  shows "length (cdata (convertCSVColumns rows cols True)) = length rows
    \<and> (\<forall>i < length rows. \<forall>c\<in>set cols.
          getProp (cdata (convertCSVColumns rows cols True) ! i) c = getProp (rows ! i) c
          \<and> (\<forall>n. getProp (rows ! i) c = JNum n \<longrightarrow>
                getProp (cdata (convertCSVColumns rows cols True) ! i) (c @ ''_hhmm'')
                  = JStr (decimalToTime n))
          \<and> (\<not> isNumber (getProp (rows ! i) c) \<longrightarrow>
                map_of (cdata (convertCSVColumns rows cols True) ! i) (c @ ''_hhmm'')
                  = map_of (rows ! i) (c @ ''_hhmm'')
                \<and> (c @ ''_hhmm'' \<in> fst ` set (cdata (convertCSVColumns rows cols True) ! i))
                    = (c @ ''_hhmm'' \<in> fst ` set (rows ! i))))
    \<and> newHeaders (convertCSVColumns rows cols True)
        = recordOnce [] (concat (map (producedNames cols) rows))
    \<and> distinct (newHeaders (convertCSVColumns rows cols True))
    \<and> allHeaders hs (newHeaders (convertCSVColumns rows cols True))
        = hs @ newHeaders (convertCSVColumns rows cols True)"
proof -
  let ?out = "convertCSVColumns rows cols True"
  have rows_eq: "cdata ?out = map (\<lambda>r. fst (convertRow True cols r [])) rows"
    using convertRows_fst [of True cols rows "[]"]
    by (simp add: convertCSVColumns_def case_prod_unfold)
  have hdrs: "snd (convertRows True cols rs nh) = recordOnce nh (concat (map (producedNames cols) rs))"
    for rs nh
  proof (induction rs arbitrary: nh)
    case Nil
    then show ?case by (simp add: recordOnce_Nil)
  next
    case (Cons r rs)
    then show ?case
      using convertRow_True_headers [OF assms(1), of r nh]
      by (simp add: case_prod_unfold Let_def recordOnce_append)
  qed
  have headers_eq: "newHeaders ?out = recordOnce [] (concat (map (producedNames cols) rows))"
    using hdrs [of rows "[]"] by (simp add: convertCSVColumns_def case_prod_unfold)
  have len: "length (cdata ?out) = length rows"
    by (simp add: rows_eq)
  have per_row: "getProp (cdata ?out ! i) c = getProp (rows ! i) c
          \<and> (\<forall>n. getProp (rows ! i) c = JNum n \<longrightarrow>
                getProp (cdata ?out ! i) (c @ ''_hhmm'') = JStr (decimalToTime n))
          \<and> (\<not> isNumber (getProp (rows ! i) c) \<longrightarrow>
                map_of (cdata ?out ! i) (c @ ''_hhmm'') = map_of (rows ! i) (c @ ''_hhmm'')
                \<and> (c @ ''_hhmm'' \<in> fst ` set (cdata ?out ! i))
                    = (c @ ''_hhmm'' \<in> fst ` set (rows ! i)))"
    if i: "i < length rows" and c: "c \<in> set cols" for i c
  proof -
    let ?r = "rows ! i"
    have out_i: "cdata ?out ! i = fst (convertRow True cols ?r [])"
      using i by (simp add: rows_eq)
    have c_not_derived: "c \<notin> (\<lambda>c. c @ ''_hhmm'') ` set cols"
      using assms(1) c by auto
    have p1: "getProp (cdata ?out ! i) c = getProp ?r c"
      unfolding out_i by (rule convertRow_True_other_keys [OF c_not_derived])
    have p2: "getProp (cdata ?out ! i) (c @ ''_hhmm'') = JStr (decimalToTime n)"
      if "getProp ?r c = JNum n" for n
      unfolding out_i
      using c assms(1) that by (intro convertRow_True_derived) auto
    have p3: "map_of (cdata ?out ! i) (c @ ''_hhmm'') = map_of ?r (c @ ''_hhmm'')"
      if "\<not> isNumber (getProp ?r c)"
    proof -
      have "c @ ''_hhmm'' \<notin> (\<lambda>c. c @ ''_hhmm'') ` {d \<in> set cols. isNumber (getProp ?r d)}"
        using that by auto
      then show ?thesis
        unfolding out_i by (rule convertRow_True_untouched [OF assms(1)])
    qed
    have p4: "(c @ ''_hhmm'' \<in> fst ` set (cdata ?out ! i)) = (c @ ''_hhmm'' \<in> fst ` set ?r)"
      if "\<not> isNumber (getProp ?r c)"
      using p3 [OF that] map_of_eq_None_iff [of "cdata ?out ! i" "c @ ''_hhmm''"]
        map_of_eq_None_iff [of ?r "c @ ''_hhmm''"]
      by simp
    from p1 p2 p3 p4 show ?thesis by blast
  qed
  have dist: "distinct (newHeaders ?out)"
    unfolding headers_eq by (rule recordOnce_distinct) simp
  have ser: "allHeaders hs (newHeaders ?out) = hs @ newHeaders ?out"
    by (simp add: allHeaders_def)
  from len per_row headers_eq dist ser show ?thesis by blast
qed

text \<open>
  The amended C7 at two rows; the second has no number at \<open>A\<close> and already holds a key
  \<open>A_hhmm\<close>, as a file converted before does.
\<close>

theorem convertCSVColumns_keep_original_witness:
  "''B_hhmm'' \<notin> set [''B'', ''A''] \<and> ''A_hhmm'' \<notin> set [''B'', ''A'']
   \<and> newHeaders (convertCSVColumns
         [[(''A'', JNum (3 / 2)), (''B'', JNum (5 / 2))],
          [(''B'', JNum 1), (''A'', JStr ''x''), (''A_hhmm'', JStr ''kept'')]]
         [''B'', ''A''] True) = [''B_hhmm'', ''A_hhmm'']
   \<and> getProp (cdata (convertCSVColumns
         [[(''A'', JNum (3 / 2)), (''B'', JNum (5 / 2))],
          [(''B'', JNum 1), (''A'', JStr ''x''), (''A_hhmm'', JStr ''kept'')]]
         [''B'', ''A''] True) ! 0) ''A_hhmm'' = JStr ''01:30''
   \<and> getProp (cdata (convertCSVColumns
         [[(''A'', JNum (3 / 2)), (''B'', JNum (5 / 2))],
          [(''B'', JNum 1), (''A'', JStr ''x''), (''A_hhmm'', JStr ''kept'')]]
         [''B'', ''A''] True) ! 1) ''A'' = JStr ''x''
   \<and> map_of (cdata (convertCSVColumns
         [[(''A'', JNum (3 / 2)), (''B'', JNum (5 / 2))],
          [(''B'', JNum 1), (''A'', JStr ''x''), (''A_hhmm'', JStr ''kept'')]]
         [''B'', ''A''] True) ! 1) ''A_hhmm'' = Some (JStr ''kept'')"
proof -
  let ?rows = "[[(''A'', JNum (3 / 2)), (''B'', JNum (5 / 2))],
                [(''B'', JNum 1), (''A'', JStr ''x''), (''A_hhmm'', JStr ''kept'')]]"
  let ?cols = "[''B'', ''A'']"
  let ?out = "convertCSVColumns ?rows ?cols True"
  have h1: "\<forall>c\<in>set ?cols. c @ ''_hhmm'' \<notin> set ?cols" by simp
  note t = convertCSVColumns_keep_original [OF h1, of ?rows "[''A'', ''B'']"]
  from t have "newHeaders ?out = recordOnce [] (concat (map (producedNames ?cols) ?rows))"
    by blast
  then have n: "newHeaders ?out = [''B_hhmm'', ''A_hhmm'']"
    by (simp add: recordOnce_def producedNames_def getProp_def)
  from t have r0: "\<forall>c\<in>set ?cols. \<forall>n. getProp (?rows ! 0) c = JNum n \<longrightarrow>
      getProp (cdata ?out ! 0) (c @ ''_hhmm'') = JStr (decimalToTime n)"
    by simp
  have "getProp (?rows ! 0) ''A'' = JNum (3 / 2)"
    by (simp add: getProp_def)
  with r0 have "getProp (cdata ?out ! 0) (''A'' @ ''_hhmm'') = JStr (decimalToTime (3 / 2))"
    by simp
  moreover have "decimalToTime (3 / 2) = ''01:30''"
    by (simp add: clock_eval)
  ultimately have a0: "getProp (cdata ?out ! 0) ''A_hhmm'' = JStr ''01:30''"
    by simp
  from t have r1: "\<forall>c\<in>set ?cols. getProp (cdata ?out ! 1) c = getProp (?rows ! 1) c
      \<and> (\<not> isNumber (getProp (?rows ! 1) c) \<longrightarrow>
            map_of (cdata ?out ! 1) (c @ ''_hhmm'') = map_of (?rows ! 1) (c @ ''_hhmm''))"
    by simp
  have a1: "getProp (cdata ?out ! 1) ''A'' = JStr ''x''"
    using r1 by (simp add: getProp_def)
  have a2: "map_of (cdata ?out ! 1) ''A_hhmm'' = Some (JStr ''kept'')"
    using r1 by (simp add: getProp_def)
  from n a0 a1 a2 show ?thesis by simp
qed

section \<open>detectHeaderRow\<close>

lemma findFrom_first:
  "i \<le> k \<Longrightarrow> k < min (length rows) 15 \<Longrightarrow> headerLike (rows ! k)
     \<Longrightarrow> \<forall>j. i \<le> j \<and> j < k \<longrightarrow> \<not> headerLike (rows ! j)
     \<Longrightarrow> findColumnHeaderRowFrom rows i = k"
proof (induction rows i rule: findColumnHeaderRowFrom.induct)
  case (1 rows i)
  show ?case
  proof (cases "i = k")
    case True
    with "1.prems" show ?thesis
      by (subst findColumnHeaderRowFrom.simps) simp
  next
    case False
    with "1.prems" have lt: "i < k" by simp
    with "1.prems" have cond: "i < min (length rows) 15" and nh: "\<not> headerLike (rows ! i)"
      by auto
    have "findColumnHeaderRowFrom rows (Suc i) = k"
      using "1.IH" [OF cond nh] "1.prems" lt by auto
    with cond nh show ?thesis
      by (subst findColumnHeaderRowFrom.simps) simp
  qed
qed

lemma findFrom_none:
  "\<forall>j. i \<le> j \<and> j < min (length rows) 15 \<longrightarrow> \<not> headerLike (rows ! j)
     \<Longrightarrow> findColumnHeaderRowFrom rows i = 6"
proof (induction rows i rule: findColumnHeaderRowFrom.induct)
  case (1 rows i)
  show ?case
  proof (cases "i < min (length rows) 15")
    case True
    with "1.prems" have nh: "\<not> headerLike (rows ! i)" by auto
    have "findColumnHeaderRowFrom rows (Suc i) = 6"
      using "1.IH" [OF True nh] "1.prems" by auto
    with True nh show ?thesis
      by (subst findColumnHeaderRowFrom.simps) simp
  next
    case False
    then show ?thesis
      by (subst findColumnHeaderRowFrom.simps) auto
  qed
qed


lemma addMarkers_inv:
  "distinct found \<Longrightarrow>
   distinct (foldl (\<lambda>found marker. if strIncludes s marker then List.insert marker found else found) found ms)
   \<and> set (foldl (\<lambda>found marker. if strIncludes s marker then List.insert marker found else found) found ms)
      = set found \<union> {m \<in> set ms. strIncludes s m}"
  by (induction ms arbitrary: found) auto

lemma scanRow_inv:
  "distinct found \<Longrightarrow>
   distinct (scanRow r found)
   \<and> set (scanRow r found) = set found \<union> {m \<in> set markers. list_ex (cellHas m) r}"
  unfolding scanRow_def
proof (induction r arbitrary: found)
  case Nil
  then show ?case by simp
next
  case (Cons cell r)
  show ?case
  proof (cases cell)
    case (JStr s)
    have d: "distinct (addMarkers s found)"
      and st: "set (addMarkers s found) = set found \<union> {m \<in> set markers. strIncludes s m}"
      using addMarkers_inv [OF Cons.prems, of s markers] by (simp_all add: addMarkers_def)
    show ?thesis
      using Cons.IH [OF d] JStr st by (auto simp: cellHas_def)
  qed (use Cons.IH [OF Cons.prems] in \<open>auto simp: cellHas_def\<close>)
qed

lemma scanRows_inv:
  "distinct found \<Longrightarrow>
   distinct (foldl (\<lambda>found r. scanRow r found) found rs)
   \<and> set (foldl (\<lambda>found r. scanRow r found) found rs)
       = set found \<union> {m \<in> set markers. list_ex (\<lambda>r. list_ex (cellHas m) r) rs}"
proof (induction rs arbitrary: found)
  case Nil
  then show ?case by simp
next
  case (Cons r rs)
  have d: "distinct (scanRow r found)"
    and st: "set (scanRow r found) = set found \<union> {m \<in> set markers. list_ex (cellHas m) r}"
    using scanRow_inv [OF Cons.prems, of r] by simp_all
  show ?case
    using Cons.IH [OF d] st by auto
qed

lemma hasReportHeader_iff: "hasReportHeader rows \<longleftrightarrow> 2 \<le> markersFound rows"
proof -
  let ?found = "foldl (\<lambda>found r. scanRow r found) [] (take 6 rows)"
  have d: "distinct ?found"
    and st: "set ?found = {m \<in> set markers. markerOccurs m rows}"
    using scanRows_inv [of "[]" "take 6 rows"]
    by (simp_all add: markerOccurs_def)
  have dm: "distinct (filter (\<lambda>m. markerOccurs m rows) markers)"
    by (simp add: markers_def)
  have "length ?found = card (set ?found)"
    using d by (simp add: distinct_card)
  also have "set ?found = set (filter (\<lambda>m. markerOccurs m rows) markers)"
    by (simp add: st)
  also have "card (set (filter (\<lambda>m. markerOccurs m rows) markers))
               = length (filter (\<lambda>m. markerOccurs m rows) markers)"
    using dm by (rule distinct_card)
  also have "\<dots> = markersFound rows"
    by (simp add: markersFound_def)
  finally show ?thesis
    by (simp add: hasReportHeader_def Let_def)
qed

lemmas grid_eval = markersFound_def markerOccurs_def cellHas_def markers_def
  headerLikeAsWorded_def headerLike_def isNonEmptyCell_def detectHeaderRow_def
  hasReportHeader_def scanRow_def addMarkers_def findColumnHeaderRow_def
  findColumnHeaderRowFrom.simps Let_def

text \<open>
  Claim C3 describes the header row as the first row in 3..14 with at least five non-empty
  cells of which at least 60 percent are strings. The source counts the empty string among
  the string cells but not among the non-empty cells, against its own comment that a header
  row has mostly strings: row 3 of the grid below has five numbers and three empty strings,
  none of its non-empty cells is a string, and it is taken as the header row where the claim
  gives row 4 with its five names.
\<close>

theorem detectHeaderRow_counts_empty_strings:
  "2 \<le> markersFound emptyStringsGrid
   \<and> \<not> headerLikeAsWorded (emptyStringsGrid ! 3)
   \<and> headerLikeAsWorded (emptyStringsGrid ! 4)
   \<and> detectHeaderRow emptyStringsGrid = 3"
  by (simp add: emptyStringsGrid_def grid_eval)

text \<open>
  The scan in terms of the row test of the source: with at least two markers the result is
  the first row with index in 3..14, inside the grid, that passes the test, and 6 when there
  is none; with fewer than two markers it is 0.
\<close>

lemma detectHeaderRow_scan:
  "(2 \<le> markersFound rows \<longrightarrow>
      (\<forall>i. 3 \<le> i \<and> i < min (length rows) 15 \<and> headerLike (rows ! i)
            \<and> (\<forall>j. 3 \<le> j \<and> j < i \<longrightarrow> \<not> headerLike (rows ! j))
          \<longrightarrow> detectHeaderRow rows = i)
      \<and> ((\<forall>i. 3 \<le> i \<and> i < min (length rows) 15 \<longrightarrow> \<not> headerLike (rows ! i))
          \<longrightarrow> detectHeaderRow rows = 6))
   \<and> (markersFound rows < 2 \<longrightarrow> detectHeaderRow rows = 0)"
proof -
  have none: "detectHeaderRow rows = 0" if "markersFound rows < 2"
    using that by (simp add: detectHeaderRow_def hasReportHeader_iff)
  have nonempty: "rows \<noteq> []" if "2 \<le> markersFound rows"
    using that by (auto simp: markersFound_def markerOccurs_def)
  have some: "detectHeaderRow rows = findColumnHeaderRowFrom rows 3" if "2 \<le> markersFound rows"
    using that nonempty [OF that]
    by (simp add: detectHeaderRow_def hasReportHeader_iff findColumnHeaderRow_def)
  show ?thesis
    using none some findFrom_first [of 3 _ rows] findFrom_none [of 3 rows]
    by auto
qed

text \<open>The scan at the three example grids: header row 6, the default 6, and row 0.\<close>

lemma detectHeaderRow_scan_examples:
  "2 \<le> markersFound preambleGrid
   \<and> (6 :: nat) < min (length preambleGrid) 15 \<and> headerLike (preambleGrid ! 6)
   \<and> \<not> headerLike (preambleGrid ! 3) \<and> \<not> headerLike (preambleGrid ! 4)
   \<and> \<not> headerLike (preambleGrid ! 5)
   \<and> detectHeaderRow preambleGrid = 6
   \<and> 2 \<le> markersFound preambleOnlyGrid \<and> length preambleOnlyGrid = 2
   \<and> detectHeaderRow preambleOnlyGrid = 6
   \<and> markersFound [[JStr ''Name'', JStr ''Hours'']] < 2
   \<and> detectHeaderRow [[JStr ''Name'', JStr ''Hours'']] = 0"
proof -
  have m: "2 \<le> markersFound preambleGrid"
    by (simp add: preambleGrid_def grid_eval)
  have b: "(6 :: nat) < min (length preambleGrid) 15"
    by (simp add: preambleGrid_def)
  have q: "headerLike (preambleGrid ! 6)"
    by (simp add: preambleGrid_def grid_eval)
  have n3: "\<not> headerLike (preambleGrid ! 3)" and n4: "\<not> headerLike (preambleGrid ! 4)"
    and n5: "\<not> headerLike (preambleGrid ! 5)"
    by (simp_all add: preambleGrid_def grid_eval)
  have before: "\<forall>j. 3 \<le> j \<and> j < 6 \<longrightarrow> \<not> headerLike (preambleGrid ! j)"
  proof (intro allI impI)
    fix j :: nat
    assume "3 \<le> j \<and> j < 6"
    then have "j = 3 \<or> j = 4 \<or> j = 5" by arith
    with n3 n4 n5 show "\<not> headerLike (preambleGrid ! j)" by blast
  qed
  have r6: "detectHeaderRow preambleGrid = 6"
    using detectHeaderRow_scan [of preambleGrid] m b q before by simp
  have m2: "2 \<le> markersFound preambleOnlyGrid"
    by (simp add: preambleOnlyGrid_def grid_eval)
  have l2: "length preambleOnlyGrid = 2"
    by (simp add: preambleOnlyGrid_def)
  have d6: "detectHeaderRow preambleOnlyGrid = 6"
    using detectHeaderRow_scan [of preambleOnlyGrid] m2 l2 by auto
  have m0: "markersFound [[JStr ''Name'', JStr ''Hours'']] < 2"
    by (simp add: grid_eval)
  have r0: "detectHeaderRow [[JStr ''Name'', JStr ''Hours'']] = 0"
    using detectHeaderRow_scan [of "[[JStr ''Name'', JStr ''Hours'']]"] m0 by simp
  from m b q n3 n4 n5 r6 m2 l2 d6 m0 r0 show ?thesis by blast
qed

section \<open>parseXLSXSheet\<close>

lemmas sheet_eval = parseXLSXSheet_def exampleLib_def exampleBook_def
  detectHeaderRow_def hasReportHeader_def scanRow_def addMarkers_def markers_def
  getMergedColumns_def headerColumns_def indexed_def trim_def isWhitespace_def
  ensureUniqueHeaders_def findMissingDataColumns_def countColumns_def countStep_def
  cellKeys_def columnOf_def isDigit_def mathMax_def missingName_def natToString_small digitChar_def
  parseDataRows_def isNonEmptyCell_def coerceCell_def setProp_def Let_def

lemma parseXLSXSheet_sheet:
  assumes "SheetNames wb = name # others" "name \<noteq> []" "map_of (Sheets wb) name = Some ws"
  shows "parseXLSXSheet lib wb =
     (let rawData = sheet_to_json lib ws;
          h = detectHeaderRow rawData;
          extracted = headerColumns (numberToString lib) (getMergedColumns ws h) rawData h;
          hs = ensureUniqueHeaders (map fst extracted);
          missingColumns = findMissingDataColumns (numberToString lib) ws h
      in if missingColumns \<noteq> []
         then Inl (Error (missingDataMessage missingColumns))
         else Inr \<lparr>sd_headers = hs,
                   sd_data = parseDataRows (stringToNumber lib)
                     (buildHeaderMap hs (indexed (map snd extracted)) Map.empty)
                     (drop (h + 1) rawData),
                   sd_headerRowIndex = h\<rparr>)"
  using assms by (simp add: parseXLSXSheet_def Let_def)

subsection \<open>The missing-data check\<close>

lemma countColumns_foldl: "countColumns keys = foldl countStep [] keys"
  by (simp add: countColumns_def)

lemma countStep_countOf:
  "countOf (countStep cc key) col = countOf cc col + (if columnOf key = col then 1 else 0)"
  by (simp add: countOf_def countStep_def Let_def update_conv')

lemma countStep_keys:
  "fst ` set (countStep cc key) = insert (columnOf key) (fst ` set cc)"
  by (simp add: countStep_def Let_def dom_update)

lemma countStep_distinct: "distinct (map fst cc) \<Longrightarrow> distinct (map fst (countStep cc key))"
  by (simp add: countStep_def Let_def distinct_update)

lemma foldl_countStep:
  "countOf (foldl countStep cc keys) col
     = countOf cc col + length (filter (\<lambda>key. columnOf key = col) keys)"
  by (induction keys arbitrary: cc) (simp_all add: countStep_countOf)

lemma foldl_countStep_keys:
  "fst ` set (foldl countStep cc keys) = fst ` set cc \<union> columnOf ` set keys"
  by (induction keys arbitrary: cc) (auto simp: countStep_keys)

lemma foldl_countStep_distinct:
  "distinct (map fst cc) \<Longrightarrow> distinct (map fst (foldl countStep cc keys))"
  by (induction keys arbitrary: cc) (simp_all add: countStep_distinct)

lemma countColumns_entry:
  "(col, n) \<in> set (countColumns (cellKeys ws)) \<longleftrightarrow> n = populatedCells ws col \<and> 0 < n"
proof -
  let ?cc = "countColumns (cellKeys ws)"
  have d: "distinct (map fst ?cc)"
    by (simp add: countColumns_foldl foldl_countStep_distinct)
  have cnt: "countOf ?cc col = populatedCells ws col"
    using foldl_countStep [of "[]" "cellKeys ws" col]
    by (simp add: countColumns_foldl populatedCells_def countOf_def)
  have keys: "col \<in> fst ` set ?cc \<longleftrightarrow> 0 < populatedCells ws col"
    by (auto simp: countColumns_foldl foldl_countStep_keys populatedCells_def filter_empty_conv)
  show ?thesis
  proof
    assume mem: "(col, n) \<in> set ?cc"
    then have m: "map_of ?cc col = Some n" using d by simp
    then have "n = populatedCells ws col" using cnt by (simp add: countOf_def)
    moreover have "col \<in> fst ` set ?cc" using mem by force
    ultimately show "n = populatedCells ws col \<and> 0 < n" using keys by simp
  next
    assume a: "n = populatedCells ws col \<and> 0 < n"
    then have "col \<in> fst ` set ?cc" using keys by simp
    then obtain k where m: "map_of ?cc col = Some k"
      by (cases "map_of ?cc col") (simp_all add: map_of_eq_None_iff)
    then have "k = n" using cnt a by (simp add: countOf_def)
    with m show "(col, n) \<in> set ?cc" by (auto dest: map_of_SomeD)
  qed
qed

lemma ext_le_refl: "ext_le a a"
  by (cases a) simp_all

lemma ext_le_trans: "ext_le a b \<Longrightarrow> ext_le b c \<Longrightarrow> ext_le a c"
  by (cases a; cases b; cases c) simp_all

lemma ext_le_total: "ext_le a b \<or> ext_le b a"
  by (cases a; cases b) auto

lemma foldl_mathMax_acc: "ext_le acc (foldl mathMax acc xs)"
proof (induction xs arbitrary: acc)
  case Nil
  then show ?case by (simp add: ext_le_refl)
next
  case (Cons x xs)
  have "ext_le acc (mathMax acc x)"
    using ext_le_refl by (simp add: mathMax_def)
  then show ?case
    using Cons.IH [of "mathMax acc x"] by (auto intro: ext_le_trans)
qed

lemma foldl_mathMax_elem: "x \<in> set xs \<Longrightarrow> ext_le x (foldl mathMax acc xs)"
proof (induction xs arbitrary: acc)
  case Nil
  then show ?case by simp
next
  case (Cons y ys)
  show ?case
  proof (cases "x = y")
    case True
    have "ext_le y (mathMax acc y)"
      using ext_le_total [of acc y] by (auto simp: mathMax_def ext_le_refl)
    then show ?thesis
      using True foldl_mathMax_acc [of "mathMax acc y" ys] by (auto intro: ext_le_trans)
  next
    case False
    with Cons.prems have "x \<in> set ys" by simp
    then show ?thesis using Cons.IH by simp
  qed
qed

lemma maxCount_exceeds:
  assumes "(col', n) \<in> set cc" "1 < n"
  shows "\<not> ext_le (foldl mathMax NegInf (map (\<lambda>(col, n). Fin (of_nat n)) cc)) (Fin 1)"
proof
  assume le: "ext_le (foldl mathMax NegInf (map (\<lambda>(col, n). Fin (of_nat n)) cc)) (Fin 1)"
  have "Fin (of_nat n) \<in> set (map (\<lambda>(col, n). Fin (of_nat n)) cc)"
    using assms(1) by force
  then have "ext_le (Fin (of_nat n)) (foldl mathMax NegInf (map (\<lambda>(col, n). Fin (of_nat n)) cc))"
    by (rule foldl_mathMax_elem)
  then have "ext_le (Fin (of_nat n)) (Fin 1)" using le by (rule ext_le_trans)
  with assms(2) show False by simp
qed

lemma missingLoop_set:
  "set (missingLoop nts ws h cc) = missingName nts ws h ` {col. (col, 1) \<in> set cc}"
  by (induction cc) (auto split: if_splits)

lemma startsWith_append: "startsWith (x @ t) x"
  by (induction x) simp_all

lemma strIncludes_append: "strIncludes (s @ x @ t) x"
proof (induction s)
  case Nil
  show ?case
  proof (cases "x @ t")
    case Nil
    then show ?thesis by simp
  next
    case (Cons c cs)
    have "startsWith (x @ t) x" by (rule startsWith_append)
    then show ?thesis using Cons by simp
  qed
next
  case (Cons c s)
  then show ?case by simp
qed

lemma joinWith_mem: "x \<in> set xs \<Longrightarrow> \<exists>s t. joinWith sep xs = s @ x @ t"
proof (induction sep xs rule: joinWith.induct)
  case (1 sep)
  then show ?case by simp
next
  case (2 sep y)
  then have "joinWith sep [y] = [] @ x @ []" by simp
  then show ?case by blast
next
  case (3 sep y z zs)
  show ?case
  proof (cases "x = y")
    case True
    then have "joinWith sep (y # z # zs) = [] @ x @ (sep @ joinWith sep (z # zs))" by simp
    then show ?thesis by blast
  next
    case False
    with "3.prems" have "x \<in> set (z # zs)" by simp
    then obtain s t where "joinWith sep (z # zs) = s @ x @ t"
      using "3.IH" by blast
    then have "joinWith sep (y # z # zs) = (y @ sep @ s) @ x @ t" by simp
    then show ?thesis by blast
  qed
qed

lemma message_names: "x \<in> set names \<Longrightarrow> strIncludes (missingDataMessage names) x"
proof -
  assume "x \<in> set names"
  then obtain s t where j: "joinWith '', '' names = s @ x @ t"
    using joinWith_mem by blast
  have "\<exists>p q. missingDataMessage names = p @ x @ q"
    unfolding missingDataMessage_def j
    by (metis append.assoc)
  then show ?thesis
    using strIncludes_append by metis
qed

text \<open>
  Claim C5 says that the message names the header of every column that has a single
  populated cell. The source takes the text of the header cell only when the value of that
  cell is truthy: in the sheet below the header of column C is the number 0, header
  extraction names the column \<open>0\<close>, and the message names \<open>Column C\<close> instead.
\<close>

theorem missing_data_zero_header:
  "populatedCells zeroHeaderSheet ''C'' = 1
   \<and> populatedCells zeroHeaderSheet ''A'' = 3
   \<and> map fst (headerColumns (numberToString (exampleLib zeroHeaderGrid)) {} zeroHeaderGrid 0)
       = [''Name'', ''Hours'', ''0'']
   \<and> parseXLSXSheet (exampleLib zeroHeaderGrid) (exampleBook zeroHeaderSheet)
       = Inl (Error (missingDataMessage [''Column C'']))
   \<and> \<not> strIncludes (missingDataMessage [''Column C'']) ''0''"
proof -
  have "populatedCells zeroHeaderSheet ''C'' = 1 \<and> populatedCells zeroHeaderSheet ''A'' = 3"
    by (simp add: populatedCells_def zeroHeaderSheet_def cellKeys_def columnOf_def isDigit_def)
  moreover have
    "map fst (headerColumns (numberToString (exampleLib zeroHeaderGrid)) {} zeroHeaderGrid 0)
       = [''Name'', ''Hours'', ''0'']"
    by (simp add: sheet_eval zeroHeaderGrid_def intToString_def)
  moreover have "parseXLSXSheet (exampleLib zeroHeaderGrid) (exampleBook zeroHeaderSheet)
       = Inl (Error (missingDataMessage [''Column C'']))"
    by (simp add: sheet_eval zeroHeaderGrid_def zeroHeaderSheet_def)
  moreover have "\<not> strIncludes (missingDataMessage [''Column C'']) ''0''"
    by (simp add: missingDataMessage_def)
  ultimately show ?thesis by blast
qed

text \<open>
  The check in general: if some column of the sheet has exactly one populated cell while
  another column has more than one, \<^verbatim>\<open>parseXLSXSheet\<close> fails with the missing-data message
  and \<^verbatim>\<open>parseXLSXFile\<close> rejects with that message wrapped. The message lists exactly the
  columns with a single populated cell: by the text of the cell on the header row when that
  cell is present with a truthy value, and as \<open>Column\<close> with the column letters when the
  cell is absent or its value is not truthy.
\<close>

lemma missing_data_check:
  assumes "SheetNames wb = name # others" "name \<noteq> []" "map_of (Sheets wb) name = Some ws"
    and "populatedCells ws col = 1" and "1 < populatedCells ws col'"
    and "h = detectHeaderRow (sheet_to_json lib ws)"
    and "names = findMissingDataColumns (numberToString lib) ws h"
  shows "parseXLSXSheet lib wb = Inl (Error (missingDataMessage names))
    \<and> parseXLSXFile lib fname wb
        = Inl (Error (''Failed to parse XLSX: '' @ missingDataMessage names))
    \<and> set names = missingName (numberToString lib) ws h ` {c. populatedCells ws c = 1}
    \<and> (\<forall>c. populatedCells ws c = 1 \<longrightarrow>
          strIncludes (missingDataMessage names) (missingName (numberToString lib) ws h c))
    \<and> (\<forall>c v. populatedCells ws c = 1 \<and> map_of (cells ws) (c @ natToString (h + 1)) = Some v
             \<and> truthy v
          \<longrightarrow> missingName (numberToString lib) ws h c = jsString (numberToString lib) v)
    \<and> (\<forall>c v. populatedCells ws c = 1 \<and> map_of (cells ws) (c @ natToString (h + 1)) = Some v
             \<and> \<not> truthy v
          \<longrightarrow> missingName (numberToString lib) ws h c = ''Column '' @ c)
    \<and> (\<forall>c. populatedCells ws c = 1 \<and> map_of (cells ws) (c @ natToString (h + 1)) = None
          \<longrightarrow> missingName (numberToString lib) ws h c = ''Column '' @ c)"
proof -
  let ?cc = "countColumns (cellKeys ws)"
  let ?nts = "numberToString lib"
  have big: "(col', populatedCells ws col') \<in> set ?cc"
    using assms(5) by (simp add: countColumns_entry)
  have over: "\<not> ext_le (foldl mathMax NegInf (map (\<lambda>(col, n). Fin (of_nat n)) ?cc)) (Fin 1)"
    using big assms(5) by (rule maxCount_exceeds)
  have names_eq: "names = missingLoop ?nts ws h ?cc"
    using over by (simp add: assms(7) findMissingDataColumns_def Let_def)
  have ones: "{c. (c, 1) \<in> set ?cc} = {c. populatedCells ws c = 1}"
    by (auto simp: countColumns_entry)
  have set_names: "set names = missingName ?nts ws h ` {c. populatedCells ws c = 1}"
    unfolding names_eq missingLoop_set ones ..
  have "missingName ?nts ws h col \<in> set names"
    using assms(4) by (simp add: set_names)
  then have nonempty: "names \<noteq> []" by auto
  have sheet: "parseXLSXSheet lib wb = Inl (Error (missingDataMessage names))"
    using nonempty assms(6,7)
    by (simp add: parseXLSXSheet_sheet [OF assms(1-3)] Let_def)
  have wrapped: "parseXLSXFile lib fname wb
        = Inl (Error (''Failed to parse XLSX: '' @ missingDataMessage names))"
    by (simp add: parseXLSXFile_def sheet)
  have incl: "strIncludes (missingDataMessage names) (missingName ?nts ws h c)"
    if "populatedCells ws c = 1" for c
    using that by (intro message_names) (simp add: set_names)
  have byval: "missingName ?nts ws h c = jsString ?nts v"
    if "map_of (cells ws) (c @ natToString (h + 1)) = Some v" "truthy v" for c v
    using that by (simp add: missingName_def)
  have byfalsy: "missingName ?nts ws h c = ''Column '' @ c"
    if "map_of (cells ws) (c @ natToString (h + 1)) = Some v" "\<not> truthy v" for c v
    using that by (simp add: missingName_def)
  have bycol: "missingName ?nts ws h c = ''Column '' @ c"
    if "map_of (cells ws) (c @ natToString (h + 1)) = None" for c
    using that by (simp add: missingName_def)
  from sheet wrapped set_names incl byval byfalsy bycol show ?thesis by blast
qed

text \<open>
  The check at a sheet whose column C holds its header \<open>Overtime\<close> only, beside two columns
  with data.
\<close>

lemma missing_data_check_example:
  "populatedCells formulaSheet ''C'' = 1
   \<and> 1 < populatedCells formulaSheet ''A''
   \<and> parseXLSXSheet (exampleLib formulaGrid) (exampleBook formulaSheet)
       = Inl (Error (missingDataMessage [''Overtime'']))
   \<and> parseXLSXFile (exampleLib formulaGrid) ''report.xlsx'' (exampleBook formulaSheet)
       = Inl (Error (''Failed to parse XLSX: '' @ missingDataMessage [''Overtime'']))
   \<and> strIncludes (missingDataMessage [''Overtime'']) ''Overtime''"
proof -
  let ?lib = "exampleLib formulaGrid"
  have s: "SheetNames (exampleBook formulaSheet) = ''Sheet1'' # []"
    by (simp add: exampleBook_def)
  have n: "''Sheet1'' \<noteq> []" by simp
  have w: "map_of (Sheets (exampleBook formulaSheet)) ''Sheet1'' = Some formulaSheet"
    by (simp add: exampleBook_def)
  have c1: "populatedCells formulaSheet ''C'' = 1"
    by (simp add: populatedCells_def formulaSheet_def cellKeys_def columnOf_def isDigit_def)
  have c2: "1 < populatedCells formulaSheet ''A''"
    by (simp add: populatedCells_def formulaSheet_def cellKeys_def columnOf_def isDigit_def)
  have h: "0 = detectHeaderRow (sheet_to_json ?lib formulaSheet)"
    by (simp add: sheet_eval formulaGrid_def)
  have nm: "[''Overtime''] = findMissingDataColumns (numberToString ?lib) formulaSheet 0"
    by (simp add: sheet_eval formulaSheet_def)
  note t = missing_data_check [OF s n w c1 c2 h nm, of "''report.xlsx''"]
  from t have p1: "parseXLSXSheet ?lib (exampleBook formulaSheet)
       = Inl (Error (missingDataMessage [''Overtime'']))"
    by blast
  from t have p2: "parseXLSXFile ?lib ''report.xlsx'' (exampleBook formulaSheet)
       = Inl (Error (''Failed to parse XLSX: '' @ missingDataMessage [''Overtime'']))"
    by blast
  from t c1 have "strIncludes (missingDataMessage [''Overtime''])
      (missingName (numberToString ?lib) formulaSheet 0 ''C'')"
    by blast
  moreover have "missingName (numberToString ?lib) formulaSheet 0 ''C'' = ''Overtime''"
    by (simp add: sheet_eval formulaSheet_def)
  ultimately have p3: "strIncludes (missingDataMessage [''Overtime'']) ''Overtime''"
    by simp
  from c1 c2 p1 p2 p3 show ?thesis by blast
qed

subsection \<open>Merged header cells\<close>

lemma mergedColumns_foldl:
  "col \<in> foldl (\<lambda>mergedCols m.
              if s_r m \<le> h \<and> e_r m \<ge> h then mergedCols \<union> {s_c m + 1 .. e_c m}
              else mergedCols) acc ms
   \<longleftrightarrow> col \<in> acc \<or> (\<exists>m\<in>set ms. s_r m \<le> h \<and> h \<le> e_r m \<and> s_c m < col \<and> col \<le> e_c m)"
proof (induction ms arbitrary: acc)
  case Nil
  then show ?case by simp
next
  case (Cons m ms)
  let ?acc' = "if s_r m \<le> h \<and> e_r m \<ge> h then acc \<union> {s_c m + 1 .. e_c m} else acc"
  have step: "col \<in> ?acc'
      \<longleftrightarrow> col \<in> acc \<or> (s_r m \<le> h \<and> h \<le> e_r m \<and> s_c m < col \<and> col \<le> e_c m)"
    by (cases "s_r m \<le> h \<and> e_r m \<ge> h") auto
  show ?case
    unfolding foldl_Cons Cons.IH [of ?acc'] step by auto
qed

lemma getMergedColumns_iff:
  "col \<in> getMergedColumns ws h
   \<longleftrightarrow> (\<exists>m\<in>set (merges ws). s_r m \<le> h \<and> h \<le> e_r m \<and> s_c m < col \<and> col \<le> e_c m)"
  by (simp add: getMergedColumns_def mergedColumns_foldl)

lemma extractHeaders_indices:
  "snd ` set (extractHeaders nts mc xs) \<subseteq> snd ` set xs - mc"
  by (induction nts mc xs rule: extractHeaders.induct) auto

lemma extractHeaders_agree:
  "list_all2 (\<lambda>p q. snd p = snd q \<and> (snd p \<notin> mc \<longrightarrow> fst p = fst q)) xs ys
     \<Longrightarrow> extractHeaders nts mc xs = extractHeaders nts mc ys"
proof (induction xs ys rule: list_all2_induct)
  case Nil
  then show ?case by simp
next
  case (Cons p xs q ys)
  then show ?case by (cases p; cases q) auto
qed

lemma indexed_update_all2:
  "list_all2 (\<lambda>p q. snd p = snd q \<and> (snd p \<noteq> col \<longrightarrow> fst p = fst q))
     (indexed (xs[col := x])) (indexed xs)"
  by (simp add: list_all2_conv_all_nth indexed_def nth_list_update)

lemma buildHeaderMap_None:
  "hm col = None \<Longrightarrow> col \<notin> fst ` set ps \<Longrightarrow> buildHeaderMap hs ps hm col = None"
  by (induction hs ps hm rule: buildHeaderMap.induct) auto

lemma map_fst_indexed: "map fst (indexed xs) = xs"
  by (simp add: indexed_def)

lemma fst_indexed: "fst ` set (indexed xs) = set xs"
  using map_fst_indexed [of xs] by (metis set_map)

lemma buildRow_agree:
  "list_all2 (\<lambda>p q. snd p = snd q \<and> (snd p \<noteq> col \<longrightarrow> fst p = fst q)) xs ys
     \<Longrightarrow> hm col = None
     \<Longrightarrow> buildRow stn hm xs rd = buildRow stn hm ys rd"
proof (induction xs ys arbitrary: rd rule: list_all2_induct)
  case Nil
  then show ?case by simp
next
  case (Cons p xs q ys)
  then show ?case
    by (cases p; cases q) (auto split: option.splits)
qed

text \<open>
  Claim C6: for a merge region that covers the header row, every column of the region but
  the leftmost is in the set of merged columns and is not a valid column index; the schema
  does not depend on the header cell of such a column, the header map has no entry for it,
  and an output row does not depend on the cell of that column. A merge over columns 2 to 4
  of the header row leaves the label of column 2 in the schema and keeps columns 3 and 4 out
  of the schema and of the rows.
\<close>

theorem merged_columns_excluded:
  assumes "SheetNames wb = name # others" "map_of (Sheets wb) name = Some ws"
    and "parseXLSXSheet lib wb = Inr sd"
    and "m \<in> set (merges ws)" "s_r m \<le> sd_headerRowIndex sd" "sd_headerRowIndex sd \<le> e_r m"
    and "s_c m < col" "col \<le> e_c m"
    and "rawData = sheet_to_json lib ws"
    and "mc = getMergedColumns ws (sd_headerRowIndex sd)"
    and "columns = headerColumns (numberToString lib) mc rawData (sd_headerRowIndex sd)"
    and "hm = buildHeaderMap (sd_headers sd) (indexed (map snd columns)) Map.empty"
  shows "sd_headerRowIndex sd = detectHeaderRow rawData
    \<and> sd_headers sd = ensureUniqueHeaders (map fst columns)
    \<and> sd_data sd
        = parseDataRows (stringToNumber lib) hm (drop (sd_headerRowIndex sd + 1) rawData)
    \<and> col \<in> mc
    \<and> col \<notin> snd ` set columns
    \<and> headerColumns (numberToString lib) mc
         (rawData[sd_headerRowIndex sd := (rawData ! sd_headerRowIndex sd)[col := x]])
         (sd_headerRowIndex sd) = columns
    \<and> hm col = None
    \<and> buildRow (stringToNumber lib) hm (indexed (r[col := y])) []
        = buildRow (stringToNumber lib) hm (indexed r) []"
proof -
  let ?h = "sd_headerRowIndex sd"
  have name: "name \<noteq> []"
    using assms(1,3) by (auto simp: parseXLSXSheet_def)
  note unfolded = parseXLSXSheet_sheet [OF assms(1) name assms(2), of lib]
  have "parseXLSXSheet lib wb
      = (if findMissingDataColumns (numberToString lib) ws (detectHeaderRow rawData) \<noteq> []
         then Inl (Error (missingDataMessage
                (findMissingDataColumns (numberToString lib) ws (detectHeaderRow rawData))))
         else Inr \<lparr>sd_headers = ensureUniqueHeaders (map fst
                     (headerColumns (numberToString lib)
                        (getMergedColumns ws (detectHeaderRow rawData)) rawData
                        (detectHeaderRow rawData))),
                   sd_data = parseDataRows (stringToNumber lib)
                     (buildHeaderMap (ensureUniqueHeaders (map fst
                        (headerColumns (numberToString lib)
                           (getMergedColumns ws (detectHeaderRow rawData)) rawData
                           (detectHeaderRow rawData))))
                        (indexed (map snd (headerColumns (numberToString lib)
                           (getMergedColumns ws (detectHeaderRow rawData)) rawData
                           (detectHeaderRow rawData)))) Map.empty)
                     (drop (detectHeaderRow rawData + 1) rawData),
                   sd_headerRowIndex = detectHeaderRow rawData\<rparr>)"
    unfolding unfolded assms(9) Let_def ..
  with assms(3) have sd: "sd = \<lparr>sd_headers = ensureUniqueHeaders (map fst
                     (headerColumns (numberToString lib)
                        (getMergedColumns ws (detectHeaderRow rawData)) rawData
                        (detectHeaderRow rawData))),
                   sd_data = parseDataRows (stringToNumber lib)
                     (buildHeaderMap (ensureUniqueHeaders (map fst
                        (headerColumns (numberToString lib)
                           (getMergedColumns ws (detectHeaderRow rawData)) rawData
                           (detectHeaderRow rawData))))
                        (indexed (map snd (headerColumns (numberToString lib)
                           (getMergedColumns ws (detectHeaderRow rawData)) rawData
                           (detectHeaderRow rawData)))) Map.empty)
                     (drop (detectHeaderRow rawData + 1) rawData),
                   sd_headerRowIndex = detectHeaderRow rawData\<rparr>"
    by (simp split: if_splits)
  have h: "?h = detectHeaderRow rawData"
    by (subst sd) simp
  have hs: "sd_headers sd = ensureUniqueHeaders (map fst columns)"
    unfolding assms(11) assms(10) h by (subst sd) simp
  have d: "sd_data sd = parseDataRows (stringToNumber lib) hm (drop (?h + 1) rawData)"
    unfolding assms(12) assms(11) assms(10) hs [unfolded assms(11) assms(10)] h
    by (subst sd) simp
  have inmc: "col \<in> mc"
    unfolding assms(10) getMergedColumns_iff using assms(4-8) by blast
  have notvalid: "col \<notin> snd ` set columns"
  proof (cases "?h < length rawData")
    case True
    then show ?thesis
      using extractHeaders_indices [of "numberToString lib" mc "indexed (rawData ! ?h)"] inmc
      by (auto simp: assms(11) headerColumns_def)
  next
    case False
    then show ?thesis by (simp add: assms(11) headerColumns_def)
  qed
  have same: "headerColumns (numberToString lib) mc
         (rawData[?h := (rawData ! ?h)[col := x]]) ?h = columns"
  proof (cases "?h < length rawData")
    case True
    have "list_all2 (\<lambda>p q. snd p = snd q \<and> (snd p \<notin> mc \<longrightarrow> fst p = fst q))
            (indexed ((rawData ! ?h)[col := x])) (indexed (rawData ! ?h))"
      using indexed_update_all2 [of col "rawData ! ?h" x] inmc
      by (auto elim!: list_all2_mono)
    then show ?thesis
      using True by (simp add: assms(11) headerColumns_def extractHeaders_agree)
  next
    case False
    then show ?thesis by (simp add: assms(11) headerColumns_def)
  qed
  have none: "hm col = None"
    unfolding assms(12)
    using notvalid by (intro buildHeaderMap_None) (simp_all add: fst_indexed)
  have row: "buildRow (stringToNumber lib) hm (indexed (r[col := y])) []
        = buildRow (stringToNumber lib) hm (indexed r) []"
    using indexed_update_all2 [of col r y] none by (rule buildRow_agree)
  from h hs d inmc notvalid same none row show ?thesis by blast
qed

text \<open>C6 at the sheet with a merge over columns 2 to 4 of header row 0, for column 3.\<close>

theorem merged_columns_excluded_witness:
  "Merge 0 2 0 4 \<in> set (merges mergedSheet)
   \<and> parseXLSXSheet (exampleLib mergedGrid) (exampleBook mergedSheet)
       = Inr \<lparr>sd_headers = [''Name'', ''Date'', ''Hours'', ''Task''],
              sd_data =
                [[(''Name'', JStr ''Ann''), (''Date'', JStr ''Mon''),
                  (''Hours'', JNum (15 / 2)), (''Task'', JStr ''Dev'')],
                 [(''Name'', JStr ''Bob''), (''Date'', JStr ''Tue''),
                  (''Hours'', JNum (13 / 4)), (''Task'', JStr ''Review'')]],
              sd_headerRowIndex = 0\<rparr>
   \<and> 3 \<in> getMergedColumns mergedSheet 0
   \<and> 3 \<notin> snd ` set (headerColumns (numberToString (exampleLib mergedGrid))
                        (getMergedColumns mergedSheet 0) mergedGrid 0)"
proof -
  let ?lib = "exampleLib mergedGrid"
  let ?sd = "\<lparr>sd_headers = [''Name'', ''Date'', ''Hours'', ''Task''],
              sd_data =
                [[(''Name'', JStr ''Ann''), (''Date'', JStr ''Mon''),
                  (''Hours'', JNum (15 / 2)), (''Task'', JStr ''Dev'')],
                 [(''Name'', JStr ''Bob''), (''Date'', JStr ''Tue''),
                  (''Hours'', JNum (13 / 4)), (''Task'', JStr ''Review'')]],
              sd_headerRowIndex = 0\<rparr>"
  have s: "SheetNames (exampleBook mergedSheet) = ''Sheet1'' # []"
    by (simp add: exampleBook_def)
  have w: "map_of (Sheets (exampleBook mergedSheet)) ''Sheet1'' = Some mergedSheet"
    by (simp add: exampleBook_def)
  have p: "parseXLSXSheet ?lib (exampleBook mergedSheet) = Inr ?sd"
    by (simp add: sheet_eval mergedGrid_def mergedSheet_def)
  have mem: "Merge 0 2 0 4 \<in> set (merges mergedSheet)"
    by (simp add: mergedSheet_def)
  have g: "mergedGrid = sheet_to_json ?lib mergedSheet"
    by (simp add: exampleLib_def)
  have t: "3 \<in> getMergedColumns mergedSheet (sd_headerRowIndex ?sd)
      \<and> 3 \<notin> snd ` set (headerColumns (numberToString ?lib)
                          (getMergedColumns mergedSheet (sd_headerRowIndex ?sd)) mergedGrid
                          (sd_headerRowIndex ?sd))"
    using merged_columns_excluded [OF s w p mem _ _ _ _ g refl refl refl, of 3]
    by simp
  then have "3 \<in> getMergedColumns mergedSheet 0
      \<and> 3 \<notin> snd ` set (headerColumns (numberToString ?lib)
                          (getMergedColumns mergedSheet 0) mergedGrid 0)"
    by simp
  with mem p show ?thesis by blast
qed

end
